theory Spec2Isabelle
  imports Complex_Main
begin

unbundle bit_operations_syntax

section \<open>Go machine integers (64-bit \<open>int\<close>)\<close>

text \<open>
  The handlers run on a 64-bit platform: Go's \<open>int\<close> is a two's-complement 64-bit
  integer.  Values are kept as HOL integers and every arithmetic result is wrapped
  back into the 64-bit range, as the hardware does.
\<close>

definition MaxInt64 :: int where
  "MaxInt64 = 9223372036854775807"

definition MinInt64 :: int where
  "MinInt64 = - 9223372036854775808"

definition wrap64 :: "int \<Rightarrow> int" where
  "wrap64 x = (x + 9223372036854775808) mod 18446744073709551616 - 9223372036854775808"

definition go_add :: "int \<Rightarrow> int \<Rightarrow> int" where
  "go_add a b = wrap64 (a + b)"

definition go_sub :: "int \<Rightarrow> int \<Rightarrow> int" where
  "go_sub a b = wrap64 (a - b)"

definition go_mul :: "int \<Rightarrow> int \<Rightarrow> int" where
  "go_mul a b = wrap64 (a * b)"

datatype panic = DivideByZero | NilDereference | TypeAssertion

text \<open>Go's integer quotient truncates towards zero and panics on a zero divisor.\<close>

definition go_quo :: "int \<Rightarrow> int \<Rightarrow> panic + int" where
  "go_quo a b =
     (if b = 0 then Inl DivideByZero
      else Inr (wrap64 (sgn a * sgn b * (\<bar>a\<bar> div \<bar>b\<bar>))))"

section \<open>\<open>strconv.Atoi\<close>\<close>

text \<open>
  \<open>strconv.Atoi\<close> of the Go standard library, for a 64-bit \<open>int\<close>.  A string of
  fewer than 19 bytes takes the fast path: an optional sign and then digits only,
  which cannot overflow.  Any other string goes through \<open>ParseInt\<close> and \<open>ParseUint\<close>
  with base 10: \<open>ParseUint\<close> reads byte by byte, answers a syntax error with value 0
  at the first byte that is not a digit, and a range error with the largest unsigned
  value as soon as the next digit would overflow 64 bits, without looking at the rest
  of the string; \<open>ParseInt\<close> turns a range error, or a magnitude beyond the signed
  range, into the nearest signed bound together with a range error.
\<close>

datatype NumError = ErrSyntax | ErrRange

definition isDigit :: "char \<Rightarrow> bool" where
  "isDigit c = (48 \<le> (of_char c :: int) \<and> (of_char c :: int) \<le> 57)"

fun parseDigits :: "int \<Rightarrow> string \<Rightarrow> int option" where
  "parseDigits acc [] = Some acc"
| "parseDigits acc (c # cs) =
     (if isDigit c then parseDigits (acc * 10 + (of_char c - 48)) cs else None)"

definition maxUint64 :: int where
  "maxUint64 = 18446744073709551615"

fun scanUint :: "int \<Rightarrow> string \<Rightarrow> int \<times> NumError option" where
  "scanUint n [] = (n, None)"
| "scanUint n (c # cs) =
     (if \<not> isDigit c then (0, Some ErrSyntax)
      else if n \<ge> maxUint64 div 10 + 1 then (maxUint64, Some ErrRange)
      else (let n1 = n * 10 + (of_char c - 48)
            in if n1 > maxUint64 then (maxUint64, Some ErrRange) else scanUint n1 cs))"

definition ParseUint :: "string \<Rightarrow> int \<times> NumError option" where
  "ParseUint s = (if s = [] then (0, Some ErrSyntax) else scanUint 0 s)"

definition ParseInt :: "string \<Rightarrow> int \<times> NumError option" where
  "ParseInt s =
     (case s of
        [] \<Rightarrow> (0, Some ErrSyntax)
      | c # cs \<Rightarrow>
          (let neg = (c = CHR ''-'');
               ds = (if c = CHR ''+'' \<or> c = CHR ''-'' then cs else s)
           in case ParseUint ds of
                (un, err) \<Rightarrow>
                  if err = Some ErrSyntax then (0, Some ErrSyntax)
                  else if \<not> neg \<and> un \<ge> 9223372036854775808 then (MaxInt64, Some ErrRange)
                  else if neg \<and> un > 9223372036854775808 then (MinInt64, Some ErrRange)
                  else (if neg then - un else un, None)))"

definition Atoi :: "string \<Rightarrow> int \<times> NumError option" where
  "Atoi s =
     (case s of
        [] \<Rightarrow> ParseInt s
      | c # cs \<Rightarrow>
          if length s < 19
          then (let ds = (if c = CHR ''-'' \<or> c = CHR ''+'' then cs else s)
                in if ds = [] then (0, Some ErrSyntax)
                   else (case parseDigits 0 ds of
                           None \<Rightarrow> (0, Some ErrSyntax)
                         | Some n \<Rightarrow> (if c = CHR ''-'' then - n else n, None)))
          else ParseInt s)"

section \<open>Pagination helpers (package utils)\<close>

text \<open>The query string of a request: the first value of every key that is present.\<close>

type_synonym query = "string \<rightharpoonup> string"

definition DefaultQuery :: "query \<Rightarrow> string \<Rightarrow> string \<Rightarrow> string" where
  "DefaultQuery q key dflt = (case q key of Some v \<Rightarrow> v | None \<Rightarrow> dflt)"

definition ParsePagination :: "query \<Rightarrow> int \<times> int" where
  "ParsePagination q =
     (let pageStr = DefaultQuery q ''page'' ''1'';
          limitStr = DefaultQuery q ''limit'' ''10'';
          page = fst (Atoi pageStr);
          limit = fst (Atoi limitStr);
          page = (if page < 1 then 1 else page);
          limit = (if limit < 1 \<or> limit > 100 then 10 else limit)
      in (page, limit))"

record Pagination =
  Page :: int
  Limit :: int
  Total :: int
  TotalPages :: int

definition CalculatePagination :: "int \<Rightarrow> int \<Rightarrow> int \<Rightarrow> panic + Pagination" where
  "CalculatePagination page limit totl =
     (case go_quo (go_sub (go_add totl limit) 1) limit of
        Inl p \<Rightarrow> Inl p
      | Inr totalPages \<Rightarrow>
          (let totalPages = (if totalPages < 1 then 1 else totalPages)
           in Inr \<lparr>Page = page, Limit = limit, Total = totl, TotalPages = totalPages\<rparr>))"

text \<open>
  The row offset of the list handlers (GetTransactions, GetLands, GetLivestock,
  GetProductions, GetNotifications): \<open>offset := (page - 1) * limit\<close>.
\<close>

definition pageOffset :: "int \<Rightarrow> int \<Rightarrow> int" where
  "pageOffset page limit = go_mul (go_sub page 1) limit"

section \<open>Strings and time\<close>

text \<open>\<open>strings.Split\<close> with a one-byte separator: the pieces between the separators.\<close>

fun Split :: "char \<Rightarrow> string \<Rightarrow> string list" where
  "Split sep [] = [[]]"
| "Split sep (c # cs) =
     (if c = sep then [] # Split sep cs
      else (case Split sep cs of [] \<Rightarrow> [[c]] | p # ps \<Rightarrow> (c # p) # ps))"

text \<open>
  Instants are nanoseconds since the Unix epoch and durations are nanoseconds, as in
  package \<open>time\<close>.  Overflow of the 64-bit nanosecond counters (instants some 292
  years away from the epoch) is not modelled.
\<close>

type_synonym time = int
type_synonym duration = int

definition Second :: duration where
  "Second = 1000000000"

definition Minute :: duration where
  "Minute = 60 * Second"

definition Hour :: duration where
  "Hour = 60 * Minute"

definition Truncate :: "time \<Rightarrow> duration \<Rightarrow> time" where
  "Truncate t d = (if d \<le> 0 then t else t - t mod d)"

section \<open>Package jwt (github.com/golang-jwt/jwt/v5) as used by the token manager\<close>

text \<open>
  \<open>jwt.NewNumericDate\<close> truncates an instant to the library's precision of one second.
\<close>

definition NewNumericDate :: "time \<Rightarrow> time" where
  "NewNumericDate t = Truncate t Second"

record RegisteredClaims =
  Issuer :: string
  Subject :: string
  Audience :: "string list"
  ExpiresAt :: "time option"
  NotBefore :: "time option"
  IssuedAt :: "time option"
  ID :: string

record Claims = RegisteredClaims +
  UserID :: string
  Email :: string
  Role :: string

datatype SigningMethod = HS256 | HS384 | HS512 | NonHMAC string

text \<open>The signing methods the library registers under their \<open>alg\<close> names.\<close>

definition GetSigningMethod :: "string \<Rightarrow> SigningMethod option" where
  "GetSigningMethod alg =
     (if alg = ''HS256'' then Some HS256
      else if alg = ''HS384'' then Some HS384
      else if alg = ''HS512'' then Some HS512
      else if alg \<in> set [''RS256'', ''RS384'', ''RS512'', ''PS256'', ''PS384'', ''PS512'',
                          ''ES256'', ''ES384'', ''ES512'', ''EdDSA'', ''none'']
      then Some (NonHMAC alg)
      else None)"

fun Alg :: "SigningMethod \<Rightarrow> string" where
  "Alg HS256 = ''HS256''"
| "Alg HS384 = ''HS384''"
| "Alg HS512 = ''HS512''"
| "Alg (NonHMAC a) = a"

fun isHMAC :: "SigningMethod \<Rightarrow> bool" where
  "isHMAC (NonHMAC a) = False"
| "isHMAC m = True"

text \<open>
  The primitives of the imported packages that the token manager relies on but whose
  code is not part of the repository: the hash functions, base64url without padding,
  the JSON encoding of the token header and of the claims, \<open>time.ParseDuration\<close>,
  and for bcrypt the Blowfish key schedule with the encryption of the magic text and
  the base64 dialect of bcrypt.
\<close>

record lib =
  Hash :: "SigningMethod \<Rightarrow> string \<Rightarrow> string"
  EncodeSegment :: "string \<Rightarrow> string"
  DecodeSegment :: "string \<Rightarrow> string option"
  MarshalHeader :: "string \<Rightarrow> string"
  UnmarshalHeader :: "string \<Rightarrow> string option option"
  MarshalClaims :: "Claims \<Rightarrow> string"
  UnmarshalClaims :: "string \<Rightarrow> Claims option"
  ParseDuration :: "string \<Rightarrow> duration option"
  Blowfish :: "nat \<Rightarrow> string \<Rightarrow> string \<Rightarrow> string"
  Base64Encode :: "string \<Rightarrow> string"
  Base64Decode :: "string \<Rightarrow> string option"

text \<open>
  HMAC as \<open>crypto/hmac\<close> computes it: a key longer than the hash's block is replaced by
  its digest, the key is filled with zero bytes up to the block size, and the two
  passes hash the key xor-ed with the inner and the outer pad.
\<close>

fun blockSize :: "SigningMethod \<Rightarrow> nat" where
  "blockSize HS256 = 64"
| "blockSize m = 128"

definition xorByte :: "nat \<Rightarrow> char \<Rightarrow> char" where
  "xorByte b c = char_of ((of_char c :: nat) XOR b)"

definition padKey :: "nat \<Rightarrow> string \<Rightarrow> string" where
  "padKey n k = k @ replicate (n - length k) (CHR 0x00)"

definition HMAC :: "lib \<Rightarrow> SigningMethod \<Rightarrow> string \<Rightarrow> string \<Rightarrow> string" where
  "HMAC L m key msg =
     (let k0 = (if length key > blockSize m then Hash L m key else key);
          k = padKey (blockSize m) k0;
          ipad = map (xorByte 0x36) k;
          opad = map (xorByte 0x5c) k
      in Hash L m (opad @ Hash L m (ipad @ msg)))"

definition Verify :: "lib \<Rightarrow> SigningMethod \<Rightarrow> string \<Rightarrow> string \<Rightarrow> string \<Rightarrow> bool" where
  "Verify L m signingString sig key = (isHMAC m \<and> sig = HMAC L m key signingString)"

datatype error =
    ErrTokenMalformed
  | ErrTokenUnverifiable
  | ErrTokenSignatureInvalid
  | ErrTokenInvalidClaims
  | ErrInvalidToken
  | ErrTokenStillValid
  | Panic panic

text \<open>\<open>Token.SignedString\<close>: header and claims, base64url-encoded, and their MAC.\<close>

definition SigningString :: "lib \<Rightarrow> SigningMethod \<Rightarrow> Claims \<Rightarrow> string" where
  "SigningString L m claims =
     EncodeSegment L (MarshalHeader L (Alg m)) @ ''.'' @ EncodeSegment L (MarshalClaims L claims)"

definition SignedString :: "lib \<Rightarrow> SigningMethod \<Rightarrow> Claims \<Rightarrow> string \<Rightarrow> error + string" where
  "SignedString L m claims key =
     (let sstr = SigningString L m claims;
          sig = HMAC L m key sstr
      in Inr (sstr @ ''.'' @ EncodeSegment L sig))"

record Token =
  Method :: SigningMethod
  TokenClaims :: Claims
  Signature :: string
  Valid :: bool

text \<open>
  \<open>Parser.ParseUnverified\<close>: three segments, a JSON header, JSON claims and a
  registered signing method.
\<close>

definition ParseUnverified :: "lib \<Rightarrow> string \<Rightarrow> error + (Token \<times> string list)" where
  "ParseUnverified L tokenString =
     (let parts = Split (CHR ''.'') tokenString
      in if length parts \<noteq> 3 then Inl ErrTokenMalformed
         else (case DecodeSegment L (parts ! 0) of
                 None \<Rightarrow> Inl ErrTokenMalformed
               | Some headerBytes \<Rightarrow>
                   (case UnmarshalHeader L headerBytes of
                      None \<Rightarrow> Inl ErrTokenMalformed
                    | Some alg \<Rightarrow>
                        (case DecodeSegment L (parts ! 1) of
                           None \<Rightarrow> Inl ErrTokenMalformed
                         | Some claimBytes \<Rightarrow>
                             (case UnmarshalClaims L claimBytes of
                                None \<Rightarrow> Inl ErrTokenMalformed
                              | Some claims \<Rightarrow>
                                  (case alg of
                                     None \<Rightarrow> Inl ErrTokenUnverifiable
                                   | Some a \<Rightarrow>
                                       (case GetSigningMethod a of
                                          None \<Rightarrow> Inl ErrTokenUnverifiable
                                        | Some m \<Rightarrow>
                                            Inr (\<lparr>Method = m, TokenClaims = claims,
                                                  Signature = [], Valid = False\<rparr>, parts))))))))"

text \<open>
  The default validator: the expiry must lie strictly after the current instant, the
  not-before instant must not lie after it; an absent claim is not checked, and the
  issued-at claim is not checked at all.
\<close>

definition verifyExpiresAt :: "Claims \<Rightarrow> time \<Rightarrow> bool" where
  "verifyExpiresAt claims now = (case ExpiresAt claims of None \<Rightarrow> True | Some e \<Rightarrow> now < e)"

definition verifyNotBefore :: "Claims \<Rightarrow> time \<Rightarrow> bool" where
  "verifyNotBefore claims now = (case NotBefore claims of None \<Rightarrow> True | Some n \<Rightarrow> \<not> now < n)"

definition Validate :: "Claims \<Rightarrow> time \<Rightarrow> bool" where
  "Validate claims now = (verifyExpiresAt claims now \<and> verifyNotBefore claims now)"

definition ParseWithClaims ::
  "lib \<Rightarrow> string \<Rightarrow> (Token \<Rightarrow> error + string) \<Rightarrow> time \<Rightarrow> error + Token" where
  "ParseWithClaims L tokenString keyFunc now =
     (case ParseUnverified L tokenString of
        Inl e \<Rightarrow> Inl e
      | Inr (token, parts) \<Rightarrow>
          (case DecodeSegment L (parts ! 2) of
             None \<Rightarrow> Inl ErrTokenMalformed
           | Some sig \<Rightarrow>
               (case keyFunc token of
                  Inl e \<Rightarrow> Inl ErrTokenUnverifiable
                | Inr key \<Rightarrow>
                    if \<not> Verify L (Method token) (parts ! 0 @ ''.'' @ parts ! 1) sig key
                    then Inl ErrTokenSignatureInvalid
                    else if \<not> Validate (TokenClaims token) now
                    then Inl ErrTokenInvalidClaims
                    else Inr (token\<lparr>Signature := sig, Valid := True\<rparr>))))"

section \<open>Package auth: the token manager\<close>

record JWTManager =
  secretKey :: string
  tokenDuration :: duration

text \<open>The process environment: \<open>os.Getenv\<close> yields the empty string for an unset name.\<close>

type_synonym environ = "string \<Rightarrow> string"

definition NewJWTManager :: "lib \<Rightarrow> environ \<Rightarrow> JWTManager" where
  "NewJWTManager L getenv =
     (let secretKey = getenv ''JWT_SECRET'';
          secretKey = (if secretKey = [] then ''default-secret-key'' else secretKey);
          tokenDuration = 24 * Hour;
          duration = getenv ''JWT_EXPIRY'';
          tokenDuration =
            (if duration \<noteq> []
             then (case ParseDuration L duration of Some parsed \<Rightarrow> parsed | None \<Rightarrow> tokenDuration)
             else tokenDuration)
      in \<lparr>secretKey = secretKey, tokenDuration = tokenDuration\<rparr>)"

text \<open>
  GenerateToken reads the clock three times (for the expiry, the issued-at and the
  not-before claim, in this order) and draws a fresh UUID.
\<close>

definition newClaims ::
  "JWTManager \<Rightarrow> time \<times> time \<times> time \<Rightarrow> string \<Rightarrow> string \<Rightarrow> string \<Rightarrow> string \<Rightarrow> Claims" where
  "newClaims j clock uuid userID email role =
     (case clock of (t1, t2, t3) \<Rightarrow>
        \<lparr>Issuer = ''agri-management-api'',
         Subject = userID,
         Audience = [],
         ExpiresAt = Some (NewNumericDate (t1 + tokenDuration j)),
         NotBefore = Some (NewNumericDate t3),
         IssuedAt = Some (NewNumericDate t2),
         ID = uuid,
         UserID = userID,
         Email = email,
         Role = role\<rparr>)"

definition GenerateToken ::
  "lib \<Rightarrow> JWTManager \<Rightarrow> time \<times> time \<times> time \<Rightarrow> string \<Rightarrow> string \<Rightarrow> string \<Rightarrow> string
     \<Rightarrow> error + string" where
  "GenerateToken L j clock uuid userID email role =
     SignedString L HS256 (newClaims j clock uuid userID email role) (secretKey j)"

definition keyFunc :: "JWTManager \<Rightarrow> Token \<Rightarrow> error + string" where
  "keyFunc j token = (if \<not> isHMAC (Method token) then Inl ErrTokenUnverifiable else Inr (secretKey j))"

definition ValidateToken :: "lib \<Rightarrow> JWTManager \<Rightarrow> time \<Rightarrow> string \<Rightarrow> error + Claims" where
  "ValidateToken L j now tokenString =
     (case ParseWithClaims L tokenString (keyFunc j) now of
        Inl err \<Rightarrow> Inl err
      | Inr token \<Rightarrow> if Valid token then Inr (TokenClaims token) else Inl ErrInvalidToken)"

text \<open>
  RefreshToken validates at one instant, measures the remaining lifetime at a second one
  and then issues a token; dereferencing an absent expiry claim panics.
\<close>

definition RefreshToken ::
  "lib \<Rightarrow> JWTManager \<Rightarrow> time \<Rightarrow> time \<Rightarrow> time \<times> time \<times> time \<Rightarrow> string \<Rightarrow> string
     \<Rightarrow> error + string" where
  "RefreshToken L j tValidate tUntil clock uuid tokenString =
     (case ValidateToken L j tValidate tokenString of
        Inl err \<Rightarrow> Inl err
      | Inr claims \<Rightarrow>
          (case ExpiresAt claims of
             None \<Rightarrow> Inl (Panic NilDereference)
           | Some e \<Rightarrow>
               if e - tUntil > 15 * Minute then Inl ErrTokenStillValid
               else GenerateToken L j clock uuid (UserID claims) (Email claims) (Role claims)))"

section \<open>Package bcrypt (golang.org/x/crypto/bcrypt) and the password helpers\<close>

datatype bcrypt_error =
    ErrMismatchedHashAndPassword
  | ErrHashTooShort
  | ErrPasswordTooLong
  | HashVersionTooNewError
  | InvalidHashPrefixError
  | InvalidCostError
  | CostSyntaxError
  | CorruptSaltError
  | RandomSourceError

definition MinCost :: int where "MinCost = 4"
definition MaxCost :: int where "MaxCost = 31"
definition DefaultCost :: int where "DefaultCost = 10"

record hashed =
  hash :: string
  salt :: string
  cost :: int
  major :: char
  minor :: char

text \<open>
  The Blowfish key schedule reads the key cyclically, 72 bytes in all; bcrypt hands it
  the password followed by a zero byte.
\<close>

fun cyclic :: "nat \<Rightarrow> string \<Rightarrow> string \<Rightarrow> string" where
  "cyclic 0 key rest = []"
| "cyclic (Suc n) key [] = (case key of [] \<Rightarrow> [] | k # ks \<Rightarrow> k # cyclic n key ks)"
| "cyclic (Suc n) key (r # rs) = r # cyclic n key rs"

definition keyStream :: "string \<Rightarrow> string" where
  "keyStream key = cyclic 72 key key"

definition bcrypt :: "lib \<Rightarrow> string \<Rightarrow> int \<Rightarrow> string \<Rightarrow> bcrypt_error + string" where
  "bcrypt L password cst slt =
     (case Base64Decode L slt of
        None \<Rightarrow> Inl CorruptSaltError
      | Some csalt \<Rightarrow>
          (let ckey = password @ [CHR 0x00];
               cipherData = Blowfish L (nat cst) csalt (keyStream ckey)
           in Inr (Base64Encode L (take 23 cipherData))))"

definition checkCost :: "int \<Rightarrow> bool" where
  "checkCost cst = (\<not> (cst < MinCost \<or> cst > MaxCost))"

text \<open>The sixteen random bytes of the salt are an input; \<open>None\<close> is a failing source.\<close>

definition newFromPassword ::
  "lib \<Rightarrow> string option \<Rightarrow> string \<Rightarrow> int \<Rightarrow> bcrypt_error + hashed" where
  "newFromPassword L random password cst =
     (let cst = (if cst < MinCost then DefaultCost else cst)
      in if \<not> checkCost cst then Inl InvalidCostError
         else (case random of
                 None \<Rightarrow> Inl RandomSourceError
               | Some unencodedSalt \<Rightarrow>
                   (let slt = Base64Encode L unencodedSalt
                    in case bcrypt L password cst slt of
                         Inl e \<Rightarrow> Inl e
                       | Inr h \<Rightarrow>
                           Inr \<lparr>hash = h, salt = slt, cost = cst,
                                major = CHR ''2'', minor = CHR ''a''\<rparr>)))"

text \<open>
  The textual form of a hash: version, two-digit cost, then 22 bytes for the salt and
  31 for the digest, in an array that starts out zeroed.
\<close>

definition fit :: "nat \<Rightarrow> string \<Rightarrow> string" where
  "fit n s = take n (s @ replicate n (CHR 0x00))"

definition twoDigits :: "int \<Rightarrow> string" where
  "twoDigits c = [char_of (48 + c div 10), char_of (48 + c mod 10)]"

definition Hash' :: "hashed \<Rightarrow> string" where
  "Hash' p =
     [CHR ''$'', major p] @ (if minor p \<noteq> CHR 0x00 then [minor p] else []) @ ''$''
       @ twoDigits (cost p) @ ''$'' @ fit 22 (salt p) @ fit 31 (hash p)"

definition newFromHash :: "string \<Rightarrow> bcrypt_error + hashed" where
  "newFromHash hashedSecret =
     (if length hashedSecret < 59 then Inl ErrHashTooShort
      else if hashedSecret ! 0 \<noteq> CHR ''$'' then Inl InvalidHashPrefixError
      else if (of_char (hashedSecret ! 1) :: nat) > of_char (CHR ''2'') then Inl HashVersionTooNewError
      else
        (let n = (if hashedSecret ! 2 \<noteq> CHR ''$'' then 4 else 3);
             mnr = (if hashedSecret ! 2 \<noteq> CHR ''$'' then hashedSecret ! 2 else CHR 0x00);
             rest = drop n hashedSecret
         in case Atoi (take 2 rest) of
              (c, Some e) \<Rightarrow> Inl CostSyntaxError
            | (c, None) \<Rightarrow>
                if \<not> checkCost c then Inl InvalidCostError
                else (let rest = drop 3 rest
                      in Inr \<lparr>hash = drop 22 rest, salt = take 22 rest, cost = c,
                               major = hashedSecret ! 1, minor = mnr\<rparr>)))"

definition GenerateFromPassword ::
  "lib \<Rightarrow> string option \<Rightarrow> string \<Rightarrow> int \<Rightarrow> bcrypt_error + string" where
  "GenerateFromPassword L random password cst =
     (if length password > 72 then Inl ErrPasswordTooLong
      else (case newFromPassword L random password cst of
              Inl e \<Rightarrow> Inl e
            | Inr p \<Rightarrow> Inr (Hash' p)))"

definition CompareHashAndPassword :: "lib \<Rightarrow> string \<Rightarrow> string \<Rightarrow> bcrypt_error option" where
  "CompareHashAndPassword L hashedPassword password =
     (case newFromHash hashedPassword of
        Inl e \<Rightarrow> Some e
      | Inr p \<Rightarrow>
          (case bcrypt L password (cost p) (salt p) of
             Inl e \<Rightarrow> Some e
           | Inr otherHash \<Rightarrow>
               if Hash' p = Hash' (p\<lparr>hash := otherHash\<rparr>) then None
               else Some ErrMismatchedHashAndPassword))"

text \<open>The helpers of package utils.\<close>

definition HashPassword :: "lib \<Rightarrow> string option \<Rightarrow> string \<Rightarrow> string \<times> bcrypt_error option" where
  "HashPassword L random password =
     (case GenerateFromPassword L random password 14 of
        Inl err \<Rightarrow> ([], Some err)
      | Inr bytes \<Rightarrow> (bytes, None))"

definition CheckPassword :: "lib \<Rightarrow> string \<Rightarrow> string \<Rightarrow> bool" where
  "CheckPassword L password hsh = (CompareHashAndPassword L hsh password = None)"

section \<open>The request context (gin) and package middleware\<close>

text \<open>
  What the handlers use of \<open>gin.Context\<close>: the request headers, path parameters and
  query, the request-scoped keys, the responses written so far, the abort flag that
  keeps the engine from running the handlers still pending, and the panic that ended
  the handler, if any.
\<close>

record APIError =
  Code :: string
  Message :: string
  Details :: "string option"

record APIMeta =
  Timestamp :: time
  Version :: string
  RequestID :: string

record 'd APIResponse =
  Success :: bool
  Data :: "'d option"
  ResponseMessage :: string
  Error :: "APIError option"
  Meta :: "APIMeta option"

datatype 'd body =
    ErrorH string string
  | Envelope "'d APIResponse"

record 'd Context =
  Header :: "string \<rightharpoonup> string"
  Params :: "string \<rightharpoonup> string"
  Query :: query
  Keys :: "string \<rightharpoonup> string"
  Written :: "(nat \<times> 'd body) list"
  Aborted :: bool
  Panicked :: "panic option"

definition GetHeader :: "'d Context \<Rightarrow> string \<Rightarrow> string" where
  "GetHeader c key = (case Header c key of Some v \<Rightarrow> v | None \<Rightarrow> [])"

definition Param :: "'d Context \<Rightarrow> string \<Rightarrow> string" where
  "Param c key = (case Params c key of Some v \<Rightarrow> v | None \<Rightarrow> [])"

definition Set :: "'d Context \<Rightarrow> string \<Rightarrow> string \<Rightarrow> 'd Context" where
  "Set c key v = c\<lparr>Keys := (Keys c)(key \<mapsto> v)\<rparr>"

definition JSON :: "'d Context \<Rightarrow> nat \<Rightarrow> 'd body \<Rightarrow> 'd Context" where
  "JSON c code obj = c\<lparr>Written := Written c @ [(code, obj)]\<rparr>"

definition Abort :: "'d Context \<Rightarrow> 'd Context" where
  "Abort c = c\<lparr>Aborted := True\<rparr>"

definition StatusOK :: nat where "StatusOK = 200"
definition StatusCreated :: nat where "StatusCreated = 201"
definition StatusBadRequest :: nat where "StatusBadRequest = 400"
definition StatusUnauthorized :: nat where "StatusUnauthorized = 401"
definition StatusNotFound :: nat where "StatusNotFound = 404"
definition StatusConflict :: nat where "StatusConflict = 409"
definition StatusInternalServerError :: nat where "StatusInternalServerError = 500"

text \<open>
  The Auth middleware.  \<open>next\<close> stands for \<open>c.Next()\<close>, the run of the handlers that
  follow in the chain; the instant is the clock reading of the token validation.
\<close>

definition Auth ::
  "lib \<Rightarrow> environ \<Rightarrow> time \<Rightarrow> ('d Context \<Rightarrow> 'd Context) \<Rightarrow> 'd Context \<Rightarrow> 'd Context" where
  "Auth L getenv now next c =
     (let authHeader = GetHeader c ''Authorization''
      in if authHeader = []
         then Abort (JSON c StatusUnauthorized
                (ErrorH ''MISSING_TOKEN'' ''Authorization token gerekli''))
         else
           (let tokenParts = Split (CHR '' '') authHeader
            in if length tokenParts \<noteq> 2 \<or> tokenParts ! 0 \<noteq> ''Bearer''
               then Abort (JSON c StatusUnauthorized
                      (ErrorH ''INVALID_TOKEN_FORMAT''
                         (''Ge'' @ [CHR 0xC3, CHR 0xA7] @ ''ersiz token format'' @ [CHR 0xC4, CHR 0xB1])))
               else
                 (let tokenString = tokenParts ! 1;
                      jwtManager = NewJWTManager L getenv
                  in case ValidateToken L jwtManager now tokenString of
                       Inl err \<Rightarrow>
                         Abort (JSON c StatusUnauthorized
                           (ErrorH ''INVALID_TOKEN''
                              (''Ge'' @ [CHR 0xC3, CHR 0xA7] @ ''ersiz veya s'' @ [CHR 0xC3, CHR 0xBC]
                                 @ ''resi dolmu'' @ [CHR 0xC5, CHR 0x9F] @ '' token'')))
                     | Inr claims \<Rightarrow>
                         next (Set (Set (Set c ''user_id'' (UserID claims))
                                      ''user_email'' (Email claims))
                                 ''user_role'' (Role claims)))))"

text \<open>The accessors of package utils for the identity the middleware attached.\<close>

definition GetUserID :: "'d Context \<Rightarrow> string option" where
  "GetUserID c = Keys c ''user_id''"

definition GetUserEmail :: "'d Context \<Rightarrow> string option" where
  "GetUserEmail c = Keys c ''user_email''"

definition GetUserRole :: "'d Context \<Rightarrow> string option" where
  "GetUserRole c = Keys c ''user_role''"

section \<open>Package models and the database\<close>

record User =
  ID' :: string
  Name :: string
  Email' :: string
  Password :: string
  Avatar :: string
  Role' :: string
  FarmName :: string
  Location :: string
  IsVerified :: bool
  CreatedAt :: time
  UpdatedAt :: time

record RegisterRequest =
  reqName :: string
  reqEmail :: string
  reqPassword :: string
  reqConfirmPassword :: string
  reqFarmName :: string
  reqLocation :: string

record AuthResponse =
  respUser :: User
  respToken :: string
  respRefreshToken :: string

text \<open>
  A transaction as the handlers hold it (\<open>models.Transaction\<close>); the amount is a
  number that the handlers only copy.
\<close>

record Transaction =
  tID :: string
  tUserID :: string
  tType :: string
  tCategory :: string
  tDescription :: string
  tAmount :: real
  tCurrency :: string
  tDate :: time
  tStatus :: string
  tPaymentMethod :: string
  tReceipt :: string
  tNotes :: string
  tCreatedAt :: time
  tUpdatedAt :: time

text \<open>
  The rows of the tables \<open>users\<close> and \<open>transactions\<close> with the columns of the schema;
  a column without \<open>NOT NULL\<close> may hold no value.
\<close>

record users_row =
  u_id :: string
  u_name :: string
  u_email :: string
  u_password :: string
  u_avatar :: "string option"
  u_role :: "string option"
  u_farm_name :: "string option"
  u_location :: "string option"
  u_is_verified :: "bool option"
  u_created_at :: "time option"
  u_updated_at :: "time option"

record transactions_row =
  t_id :: string
  t_user_id :: string
  t_type :: string
  t_category :: string
  t_description :: string
  t_amount :: real
  t_currency :: "string option"
  t_date :: time
  t_status :: "string option"
  t_payment_method :: "string option"
  t_receipt :: "string option"
  t_notes :: "string option"
  t_created_at :: "time option"
  t_updated_at :: "time option"

text \<open>
  The database: the two tables, and whether the driver can execute statements at all
  (a locked or unreachable database fails every statement).
\<close>

record DB =
  users :: "users_row list"
  transactions :: "transactions_row list"
  available :: bool

datatype sql_error = ErrNoRows | ErrScan | ErrDriver | ErrConstraint

text \<open>\<open>SELECT id FROM users WHERE email = ?\<close>, scanned into one string.\<close>

definition selectUserIDByEmail :: "DB \<Rightarrow> string \<Rightarrow> sql_error + string" where
  "selectUserIDByEmail db email =
     (if \<not> available db then Inl ErrDriver
      else (case filter (\<lambda>r. u_email r = email) (users db) of
              [] \<Rightarrow> Inl ErrNoRows
            | r # rs \<Rightarrow> Inr (u_id r)))"

text \<open>
  The \<open>INSERT INTO users\<close> of Register: the primary key and the unique email are
  checked, the columns not listed stay empty or take their defaults.
\<close>

definition insertUser ::
  "DB \<Rightarrow> time \<Rightarrow> string \<Rightarrow> string \<Rightarrow> string \<Rightarrow> string \<Rightarrow> string \<Rightarrow> string \<Rightarrow> sql_error + DB" where
  "insertUser db now userID name email hashedPassword farmName location =
     (if \<not> available db then Inl ErrDriver
      else if userID \<in> u_id ` set (users db) \<or> email \<in> u_email ` set (users db)
      then Inl ErrConstraint
      else Inr (db\<lparr>users := users db @
                  [\<lparr>u_id = userID, u_name = name, u_email = email, u_password = hashedPassword,
                    u_avatar = None, u_role = Some ''farmer'', u_farm_name = Some farmName,
                    u_location = Some location, u_is_verified = Some False,
                    u_created_at = Some now, u_updated_at = Some now\<rparr>]\<rparr>))"

text \<open>
  The \<open>SELECT\<close> of GetTransaction with \<open>WHERE id = ? AND user_id = ?\<close>, scanned into a
  \<open>models.Transaction\<close>: scanning an empty column into a string or a time fails.
\<close>

definition scanTransaction :: "transactions_row \<Rightarrow> sql_error + Transaction" where
  "scanTransaction r =
     (case (t_currency r, t_status r, t_payment_method r, t_receipt r, t_notes r, t_created_at r, t_updated_at r) of
        (Some cur, Some st, Some pm, Some rc, Some nt, Some ca, Some ua) \<Rightarrow>
          Inr \<lparr>tID = t_id r, tUserID = t_user_id r, tType = t_type r, tCategory = t_category r,
               tDescription = t_description r, tAmount = t_amount r, tCurrency = cur, tDate = t_date r,
               tStatus = st, tPaymentMethod = pm, tReceipt = rc, tNotes = nt,
               tCreatedAt = ca, tUpdatedAt = ua\<rparr>
      | _ \<Rightarrow> Inl ErrScan)"

definition selectTransaction :: "DB \<Rightarrow> string \<Rightarrow> string \<Rightarrow> sql_error + Transaction" where
  "selectTransaction db transactionID userID =
     (if \<not> available db then Inl ErrDriver
      else (case filter (\<lambda>r. t_id r = transactionID \<and> t_user_id r = userID) (transactions db) of
              [] \<Rightarrow> Inl ErrNoRows
            | r # rs \<Rightarrow> scanTransaction r))"

text \<open>The \<open>UPDATE transactions SET ... WHERE id = ? AND user_id = ?\<close> of UpdateTransaction.\<close>

definition updateTransaction ::
  "DB \<Rightarrow> time \<Rightarrow> Transaction \<Rightarrow> string \<Rightarrow> string \<Rightarrow> sql_error + DB" where
  "updateTransaction db now req transactionID userID =
     (if \<not> available db then Inl ErrDriver
      else Inr (db\<lparr>transactions :=
                  map (\<lambda>r. if t_id r = transactionID \<and> t_user_id r = userID
                            then r\<lparr>t_type := tType req, t_category := tCategory req,
                                   t_description := tDescription req, t_amount := tAmount req,
                                   t_currency := Some (tCurrency req), t_date := tDate req,
                                   t_status := Some (tStatus req),
                                   t_payment_method := Some (tPaymentMethod req),
                                   t_receipt := Some (tReceipt req), t_notes := Some (tNotes req),
                                   t_updated_at := Some now\<rparr>
                            else r)
                    (transactions db)\<rparr>))"

text \<open>
  The \<open>DELETE FROM transactions WHERE id = ? AND user_id = ?\<close> of DeleteTransaction,
  with the number of rows affected.
\<close>

definition deleteTransaction :: "DB \<Rightarrow> string \<Rightarrow> string \<Rightarrow> sql_error + (DB \<times> nat)" where
  "deleteTransaction db transactionID userID =
     (if \<not> available db then Inl ErrDriver
      else Inr (db\<lparr>transactions :=
                    filter (\<lambda>r. \<not> (t_id r = transactionID \<and> t_user_id r = userID)) (transactions db)\<rparr>,
                length (filter (\<lambda>r. t_id r = transactionID \<and> t_user_id r = userID) (transactions db))))"

section \<open>Package utils: the response envelope\<close>

datatype data =
    AuthData AuthResponse
  | TransactionData Transaction

text \<open>The fixed texts of the responses, as UTF-8 bytes.\<close>

definition msgUnauthorized :: string where
  "msgUnauthorized = ''Kullan'' @ [CHR 0xC4, CHR 0xB1] @ ''c'' @ [CHR 0xC4, CHR 0xB1] @ '' kimli'' @ [CHR 0xC4, CHR 0x9F] @ ''i do'' @ [CHR 0xC4, CHR 0x9F] @ ''rulanamad'' @ [CHR 0xC4, CHR 0xB1]"

definition msgInvalidRequest :: string where
  "msgInvalidRequest = ''Ge'' @ [CHR 0xC3, CHR 0xA7] @ ''ersiz istek format'' @ [CHR 0xC4, CHR 0xB1]"

definition msgPasswordMismatch :: string where
  "msgPasswordMismatch = [CHR 0xC5, CHR 0x9E] @ ''ifreler e'' @ [CHR 0xC5, CHR 0x9F] @ ''le'' @ [CHR 0xC5, CHR 0x9F] @ ''miyor''"

definition msgEmailExists :: string where
  "msgEmailExists = ''Bu email adresi zaten kullan'' @ [CHR 0xC4, CHR 0xB1] @ ''mda''"

definition msgHashError :: string where
  "msgHashError = [CHR 0xC5, CHR 0x9E] @ ''ifre hash'' @ [CHR 0x27] @ ''lenemedi''"

definition msgUserNotCreated :: string where
  "msgUserNotCreated = ''Kullan'' @ [CHR 0xC4, CHR 0xB1] @ ''c'' @ [CHR 0xC4, CHR 0xB1] @ '' olu'' @ [CHR 0xC5, CHR 0x9F] @ ''turulamad'' @ [CHR 0xC4, CHR 0xB1]"

definition msgTokenError :: string where
  "msgTokenError = ''Token olu'' @ [CHR 0xC5, CHR 0x9F] @ ''turulamad'' @ [CHR 0xC4, CHR 0xB1]"

definition msgRefreshTokenError :: string where
  "msgRefreshTokenError = ''Refresh token olu'' @ [CHR 0xC5, CHR 0x9F] @ ''turulamad'' @ [CHR 0xC4, CHR 0xB1]"

definition msgUserCreated :: string where
  "msgUserCreated = ''Kullan'' @ [CHR 0xC4, CHR 0xB1] @ ''c'' @ [CHR 0xC4, CHR 0xB1] @ '' ba'' @ [CHR 0xC5, CHR 0x9F] @ ''ar'' @ [CHR 0xC4, CHR 0xB1] @ ''yla olu'' @ [CHR 0xC5, CHR 0x9F] @ ''turuldu''"

definition msgLoggedOut :: string where
  "msgLoggedOut = ''Ba'' @ [CHR 0xC5, CHR 0x9F] @ ''ar'' @ [CHR 0xC4, CHR 0xB1] @ ''yla '' @ [CHR 0xC3, CHR 0xA7, CHR 0xC4, CHR 0xB1] @ ''k'' @ [CHR 0xC4, CHR 0xB1, CHR 0xC5, CHR 0x9F] @ '' yap'' @ [CHR 0xC4, CHR 0xB1] @ ''ld'' @ [CHR 0xC4, CHR 0xB1]"

definition msgMissingID :: string where
  "msgMissingID = [CHR 0xC4, CHR 0xB0, CHR 0xC5, CHR 0x9F] @ ''lem ID gerekli''"

definition msgTransactionNotFound :: string where
  "msgTransactionNotFound = [CHR 0xC4, CHR 0xB0, CHR 0xC5, CHR 0x9F] @ ''lem bulunamad'' @ [CHR 0xC4, CHR 0xB1]"

definition msgTransactionNotFetched :: string where
  "msgTransactionNotFetched = [CHR 0xC4, CHR 0xB0, CHR 0xC5, CHR 0x9F] @ ''lem getirilemedi''"

definition msgTransactionFetched :: string where
  "msgTransactionFetched = [CHR 0xC4, CHR 0xB0, CHR 0xC5, CHR 0x9F] @ ''lem detaylar'' @ [CHR 0xC4, CHR 0xB1] @ '' ba'' @ [CHR 0xC5, CHR 0x9F] @ ''ar'' @ [CHR 0xC4, CHR 0xB1] @ ''yla getirildi''"

definition msgTransactionNotUpdated :: string where
  "msgTransactionNotUpdated = [CHR 0xC4, CHR 0xB0, CHR 0xC5, CHR 0x9F] @ ''lem g'' @ [CHR 0xC3, CHR 0xBC] @ ''ncellenemedi''"

definition msgTransactionNotDeleted :: string where
  "msgTransactionNotDeleted = [CHR 0xC4, CHR 0xB0, CHR 0xC5, CHR 0x9F] @ ''lem silinemedi''"

definition msgTransactionDeleted :: string where
  "msgTransactionDeleted = [CHR 0xC4, CHR 0xB0, CHR 0xC5, CHR 0x9F] @ ''lem ba'' @ [CHR 0xC5, CHR 0x9F] @ ''ar'' @ [CHR 0xC4, CHR 0xB1] @ ''yla silindi''"

text \<open>
  SuccessResponse always answers with status 200.  Both helpers read the request id
  from the context and panic on the type assertion when it was never set.
\<close>

definition SuccessResponse ::
  "data Context \<Rightarrow> time \<Rightarrow> data option \<Rightarrow> string \<Rightarrow> data Context" where
  "SuccessResponse c now dat message =
     (case Keys c ''request_id'' of
        None \<Rightarrow> c\<lparr>Panicked := Some TypeAssertion\<rparr>
      | Some requestID \<Rightarrow>
          JSON c StatusOK
            (Envelope \<lparr>Success = True, Data = dat, ResponseMessage = message, Error = None,
                       Meta = Some \<lparr>Timestamp = now, Version = ''1.0'', RequestID = requestID\<rparr>\<rparr>))"

definition ErrorResponse ::
  "data Context \<Rightarrow> time \<Rightarrow> nat \<Rightarrow> string \<Rightarrow> string \<Rightarrow> string option \<Rightarrow> data Context" where
  "ErrorResponse c now statusCode code message details =
     (case Keys c ''request_id'' of
        None \<Rightarrow> c\<lparr>Panicked := Some TypeAssertion\<rparr>
      | Some requestID \<Rightarrow>
          JSON c statusCode
            (Envelope \<lparr>Success = False, Data = None, ResponseMessage = [],
                       Error = Some \<lparr>Code = code, Message = message, Details = details\<rparr>,
                       Meta = Some \<lparr>Timestamp = now, Version = ''1.0'', RequestID = requestID\<rparr>\<rparr>))"

subsection \<open>\<open>strings.TrimSpace\<close> and \<open>IsEmptyString\<close>\<close>

text \<open>
  \<open>IsEmptyString\<close> compares \<open>strings.TrimSpace s\<close> with the empty string.  The library
  function is modelled with the UTF-8 decoding it relies on.  Runes and bytes are
  integers; \<open>RuneError\<close> is U+FFFD.

  \<open>utf8.DecodeRuneInString\<close> yields the first rune of a string and its width in
  bytes; a byte that does not start a well-formed encoding is \<open>RuneError\<close> of width 1.
  \<open>firstByte\<close> is the library's table \<open>first\<close> joined with \<open>acceptRanges\<close>: for a leading
  byte of a multi-byte encoding, the length of the encoding and the range allowed for
  its second byte.
\<close>

definition RuneError :: int where
  "RuneError = 0xFFFD"

definition RuneSelf :: int where
  "RuneSelf = 0x80"

definition firstByte :: "int \<Rightarrow> (nat \<times> int \<times> int) option" where
  "firstByte b =
     (if 0xC2 \<le> b \<and> b \<le> 0xDF then Some (2, 0x80, 0xBF)
      else if b = 0xE0 then Some (3, 0xA0, 0xBF)
      else if 0xE1 \<le> b \<and> b \<le> 0xEC then Some (3, 0x80, 0xBF)
      else if b = 0xED then Some (3, 0x80, 0x9F)
      else if 0xEE \<le> b \<and> b \<le> 0xEF then Some (3, 0x80, 0xBF)
      else if b = 0xF0 then Some (4, 0x90, 0xBF)
      else if 0xF1 \<le> b \<and> b \<le> 0xF3 then Some (4, 0x80, 0xBF)
      else if b = 0xF4 then Some (4, 0x80, 0x8F)
      else None)"

definition DecodeRuneInString :: "string \<Rightarrow> int \<times> nat" where
  "DecodeRuneInString s =
     (case map of_char s of
        [] \<Rightarrow> (RuneError, 0)
      | s0 # t \<Rightarrow>
          (case firstByte s0 of
             None \<Rightarrow> (if s0 < RuneSelf then s0 else RuneError, 1)
           | Some (sz, lo, hi) \<Rightarrow>
               if length s < sz then (RuneError, 1)
               else (let s1 = t ! 0
                     in if s1 < lo \<or> hi < s1 then (RuneError, 1)
                        else if sz \<le> 2 then ((s0 mod 32) * 64 + s1 mod 64, 2)
                        else (let s2 = t ! 1
                              in if s2 < 0x80 \<or> 0xBF < s2 then (RuneError, 1)
                                 else if sz \<le> 3
                                 then ((s0 mod 16) * 4096 + (s1 mod 64) * 64 + s2 mod 64, 3)
                                 else (let s3 = t ! 2
                                       in if s3 < 0x80 \<or> 0xBF < s3 then (RuneError, 1)
                                          else ((s0 mod 8) * 262144 + (s1 mod 64) * 4096
                                                + (s2 mod 64) * 64 + s3 mod 64, 4))))))"

text \<open>
  \<open>utf8.DecodeLastRuneInString\<close> yields the last rune and its width.  From the byte
  before the last it walks back over at most three bytes to one that can start a rune
  (\<open>lastStart\<close>, the loop unrolled; when none is found the index is one further back, and
  never below 0), decodes from there, and answers \<open>RuneError\<close> of width 1 unless that
  encoding ends exactly at the end of the string.
\<close>

definition RuneStart :: "char \<Rightarrow> bool" where
  "RuneStart b = (\<not> (0x80 \<le> (of_char b :: int) \<and> (of_char b :: int) \<le> 0xBF))"

definition lastStart :: "string \<Rightarrow> nat" where
  "lastStart s =
     (let n = length s
      in if 2 \<le> n \<and> RuneStart (s ! (n - 2)) then n - 2
         else if 3 \<le> n \<and> RuneStart (s ! (n - 3)) then n - 3
         else if 4 \<le> n \<and> RuneStart (s ! (n - 4)) then n - 4
         else n - 5)"

definition DecodeLastRuneInString :: "string \<Rightarrow> int \<times> nat" where
  "DecodeLastRuneInString s =
     (if s = [] then (RuneError, 0)
      else if (of_char (last s) :: int) < RuneSelf then (of_char (last s), 1)
      else (case DecodeRuneInString (drop (lastStart s) s) of
              (r, width) \<Rightarrow>
                if lastStart s + width \<noteq> length s then (RuneError, 1) else (r, width)))"

text \<open>
  \<open>unicode.IsSpace\<close>: the six ASCII white-space characters, U+0085 and U+00A0 in
  Latin-1, and beyond it the code points with the property White_Space.
\<close>

definition IsSpace :: "int \<Rightarrow> bool" where
  "IsSpace r =
     (if r \<le> 0xFF then r \<in> set [0x09, 0x0A, 0x0B, 0x0C, 0x0D, 0x20, 0x85, 0xA0]
      else r = 0x1680 \<or> (0x2000 \<le> r \<and> r \<le> 0x200A) \<or> r = 0x2028 \<or> r = 0x2029
           \<or> r = 0x202F \<or> r = 0x205F \<or> r = 0x3000)"

text \<open>
  \<open>indexFunc\<close> and \<open>lastIndexFunc\<close> of package \<open>strings\<close>: the byte index of the first
  (last) rune on which \<open>f\<close> answers \<open>truth\<close>, \<open>None\<close> standing for -1.  \<open>lastIndexFunc\<close>
  is given the prefix \<open>s[0:i]\<close> still to be examined.
\<close>

function indexFunc :: "string \<Rightarrow> (int \<Rightarrow> bool) \<Rightarrow> bool \<Rightarrow> nat option" where
  "indexFunc s f truth =
     (if s = [] then None
      else (case DecodeRuneInString s of
              (r, width) \<Rightarrow>
                if f r = truth then Some 0
                else map_option (\<lambda>i. width + i) (indexFunc (drop width s) f truth)))"
  by pat_completeness auto
termination
proof (relation "measure (\<lambda>(s, f, truth). length s)")
  show "wf (measure (\<lambda>(s, f, truth). length s))" by simp
next
  fix s :: string and f :: "int \<Rightarrow> bool" and truth :: bool and r :: int and width :: nat
  assume n: "s \<noteq> []" and p: "(r, width) = DecodeRuneInString s"
  from n obtain c cs where s: "s = c # cs" by (cases s) auto
  have "1 \<le> snd (DecodeRuneInString s)"
    unfolding s DecodeRuneInString_def Let_def
    by (simp split: option.split prod.split)
  with p have "1 \<le> width" by (metis snd_conv)
  with n show "((drop width s, f, truth), (s, f, truth)) \<in> measure (\<lambda>(s, f, truth). length s)"
    by (cases s) auto
qed

function lastIndexFunc :: "string \<Rightarrow> (int \<Rightarrow> bool) \<Rightarrow> bool \<Rightarrow> nat option" where
  "lastIndexFunc s f truth =
     (if s = [] then None
      else (case DecodeLastRuneInString s of
              (r, width) \<Rightarrow>
                if f r = truth then Some (length s - width)
                else lastIndexFunc (take (length s - width) s) f truth))"
  by pat_completeness auto
termination
proof (relation "measure (\<lambda>(s, f, truth). length s)")
  show "wf (measure (\<lambda>(s, f, truth). length s))" by simp
next
  fix s :: string and f :: "int \<Rightarrow> bool" and truth :: bool and r :: int and width :: nat
  assume n: "s \<noteq> []" and p: "(r, width) = DecodeLastRuneInString s"
  have l: "lastStart s < length s"
    using n by (simp add: lastStart_def Let_def)
  have "1 \<le> snd (DecodeLastRuneInString s)"
    using n l by (auto simp: DecodeLastRuneInString_def split: prod.split)
  with p have "1 \<le> width" by (metis snd_conv)
  with n show "((take (length s - width) s, f, truth), (s, f, truth))
                 \<in> measure (\<lambda>(s, f, truth). length s)"
    by (cases s) auto
qed

declare indexFunc.simps [simp del] lastIndexFunc.simps [simp del]

definition TrimLeftFunc :: "string \<Rightarrow> (int \<Rightarrow> bool) \<Rightarrow> string" where
  "TrimLeftFunc s f =
     (case indexFunc s f False of
        None \<Rightarrow> []
      | Some i \<Rightarrow> drop i s)"

definition TrimRightFunc :: "string \<Rightarrow> (int \<Rightarrow> bool) \<Rightarrow> string" where
  "TrimRightFunc s f =
     (case lastIndexFunc s f False of
        None \<Rightarrow> take 0 s
      | Some i \<Rightarrow>
          if RuneSelf \<le> (of_char (s ! i) :: int)
          then take (i + snd (DecodeRuneInString (drop i s))) s
          else take (i + 1) s)"

definition TrimFunc :: "string \<Rightarrow> (int \<Rightarrow> bool) \<Rightarrow> string" where
  "TrimFunc s f = TrimRightFunc (TrimLeftFunc s f) f"

text \<open>
  \<open>strings.TrimSpace\<close> walks over leading ASCII white space; at the first byte that is
  not ASCII it hands the rest to \<open>TrimFunc\<close>.  Otherwise it walks back over trailing
  ASCII white space (\<open>trimStop\<close>, the second loop of the function), handing what is left
  to \<open>TrimRightFunc\<close> at a byte that is not ASCII.
\<close>

definition asciiSpace :: "char \<Rightarrow> bool" where
  "asciiSpace c = (c \<in> set [CHR 0x09, CHR 0x0A, CHR 0x0B, CHR 0x0C, CHR 0x0D, CHR 0x20])"

function trimStop :: "string \<Rightarrow> string" where
  "trimStop s =
     (if s = [] then s
      else if RuneSelf \<le> (of_char (last s) :: int) then TrimRightFunc s IsSpace
      else if \<not> asciiSpace (last s) then s
      else trimStop (butlast s))"
  by pat_completeness auto
termination
  by (relation "measure length") auto

declare trimStop.simps [simp del]

fun TrimSpace :: "string \<Rightarrow> string" where
  "TrimSpace [] = trimStop []"
| "TrimSpace (c # cs) =
     (if RuneSelf \<le> (of_char c :: int) then TrimFunc (c # cs) IsSpace
      else if \<not> asciiSpace c then trimStop (c # cs)
      else TrimSpace cs)"

definition IsEmptyString :: "string \<Rightarrow> bool" where
  "IsEmptyString s = (TrimSpace s = [])"

text \<open>The RequestID middleware: the id of the request header, or else a fresh UUID.\<close>

definition RequestID' ::
  "string \<Rightarrow> ('d Context \<Rightarrow> 'd Context) \<Rightarrow> 'd Context \<Rightarrow> 'd Context" where
  "RequestID' uuid next c =
     (let requestID = GetHeader c ''X-Request-ID'';
          requestID = (if requestID = [] then uuid else requestID)
      in next (Set c ''request_id'' requestID))"

section \<open>Package handlers: registration, logout and the transaction handlers\<close>

text \<open>
  What Register draws from its environment besides the database: the random bytes of
  the password salt, three UUIDs, the clock readings of the two tokens, the time of the
  database and the time of the response.  The text of a library error in the details
  of a response is not modelled.
\<close>

record entropy =
  saltBytes :: "string option"
  userUUID :: string
  tokenUUID :: string
  refreshUUID :: string
  tokenClock :: "time \<times> time \<times> time"
  refreshClock :: "time \<times> time \<times> time"
  dbTime :: time
  responseTime :: time

definition zeroTime :: time where
  "zeroTime = - 62135596800000000000"

definition Register ::
  "lib \<Rightarrow> environ \<Rightarrow> DB \<Rightarrow> string + RegisterRequest \<Rightarrow> entropy \<Rightarrow> data Context
     \<Rightarrow> DB \<times> data Context" where
  "Register L getenv db bound ent c =
     (case bound of
        Inl err \<Rightarrow>
          (db, ErrorResponse c (responseTime ent) StatusBadRequest ''INVALID_REQUEST''
                 msgInvalidRequest (Some err))
      | Inr req \<Rightarrow>
          if reqPassword req \<noteq> reqConfirmPassword req
          then (db, ErrorResponse c (responseTime ent) StatusBadRequest ''PASSWORD_MISMATCH''
                      msgPasswordMismatch None)
          else if \<not> isl (selectUserIDByEmail db (reqEmail req))
          then (db, ErrorResponse c (responseTime ent) StatusConflict ''EMAIL_EXISTS''
                      msgEmailExists None)
          else
            (case HashPassword L (saltBytes ent) (reqPassword req) of
               (hashedPassword, Some err) \<Rightarrow>
                 (db, ErrorResponse c (responseTime ent) StatusInternalServerError ''HASH_ERROR''
                        msgHashError (Some []))
             | (hashedPassword, None) \<Rightarrow>
                 (let userID = userUUID ent
                  in case insertUser db (dbTime ent) userID (reqName req) (reqEmail req)
                            hashedPassword (reqFarmName req) (reqLocation req) of
                       Inl err \<Rightarrow>
                         (db, ErrorResponse c (responseTime ent) StatusInternalServerError
                                ''DB_ERROR'' msgUserNotCreated (Some []))
                     | Inr db' \<Rightarrow>
                         (case GenerateToken L (NewJWTManager L getenv) (tokenClock ent)
                                 (tokenUUID ent) userID (reqEmail req) ''farmer'' of
                            Inl err \<Rightarrow>
                              (db', ErrorResponse c (responseTime ent) StatusInternalServerError
                                      ''TOKEN_ERROR'' msgTokenError (Some []))
                          | Inr token \<Rightarrow>
                              (case GenerateToken L (NewJWTManager L getenv) (refreshClock ent)
                                      (refreshUUID ent) userID (reqEmail req) ''farmer'' of
                                 Inl err \<Rightarrow>
                                   (db', ErrorResponse c (responseTime ent)
                                           StatusInternalServerError ''REFRESH_TOKEN_ERROR''
                                           msgRefreshTokenError (Some []))
                               | Inr refreshToken \<Rightarrow>
                                   (let user = \<lparr>ID' = userID, Name = reqName req,
                                                Email' = reqEmail req, Password = [],
                                                Avatar = [], Role' = ''farmer'',
                                                FarmName = reqFarmName req,
                                                Location = reqLocation req, IsVerified = False,
                                                CreatedAt = zeroTime, UpdatedAt = zeroTime\<rparr>;
                                        response = \<lparr>respUser = user, respToken = token,
                                                    respRefreshToken = refreshToken\<rparr>
                                    in (db', SuccessResponse c (responseTime ent)
                                               (Some (AuthData response)) msgUserCreated)))))))"

definition Logout :: "time \<Rightarrow> data Context \<Rightarrow> data Context" where
  "Logout now c = SuccessResponse c now None msgLoggedOut"

definition GetTransaction :: "DB \<Rightarrow> time \<Rightarrow> data Context \<Rightarrow> data Context" where
  "GetTransaction db now c =
     (case GetUserID c of
        None \<Rightarrow> ErrorResponse c now StatusUnauthorized ''UNAUTHORIZED'' msgUnauthorized None
      | Some userID \<Rightarrow>
          (let transactionID = Param c ''id''
           in if IsEmptyString transactionID
              then ErrorResponse c now StatusBadRequest ''MISSING_ID'' msgMissingID None
              else (case selectTransaction db transactionID userID of
                      Inl err \<Rightarrow>
                        if err = ErrNoRows
                        then ErrorResponse c now StatusNotFound ''TRANSACTION_NOT_FOUND''
                               msgTransactionNotFound None
                        else ErrorResponse c now StatusInternalServerError ''DB_ERROR''
                               msgTransactionNotFetched (Some [])
                    | Inr transaction \<Rightarrow>
                        SuccessResponse c now (Some (TransactionData transaction))
                          msgTransactionFetched)))"

definition UpdateTransaction ::
  "DB \<Rightarrow> string + Transaction \<Rightarrow> time \<Rightarrow> time \<Rightarrow> data Context \<Rightarrow> DB \<times> data Context" where
  "UpdateTransaction db bound dbNow now c =
     (case GetUserID c of
        None \<Rightarrow> (db, ErrorResponse c now StatusUnauthorized ''UNAUTHORIZED'' msgUnauthorized None)
      | Some userID \<Rightarrow>
          (let transactionID = Param c ''id''
           in if IsEmptyString transactionID
              then (db, ErrorResponse c now StatusBadRequest ''MISSING_ID'' msgMissingID None)
              else (case bound of
                      Inl err \<Rightarrow>
                        (db, ErrorResponse c now StatusBadRequest ''INVALID_REQUEST''
                               msgInvalidRequest (Some err))
                    | Inr req \<Rightarrow>
                        (case updateTransaction db dbNow req transactionID userID of
                           Inl err \<Rightarrow>
                             (db, ErrorResponse c now StatusInternalServerError ''UPDATE_ERROR''
                                    msgTransactionNotUpdated (Some []))
                         | Inr db' \<Rightarrow> (db', GetTransaction db' now c)))))"

definition DeleteTransaction :: "DB \<Rightarrow> time \<Rightarrow> data Context \<Rightarrow> DB \<times> data Context" where
  "DeleteTransaction db now c =
     (case GetUserID c of
        None \<Rightarrow> (db, ErrorResponse c now StatusUnauthorized ''UNAUTHORIZED'' msgUnauthorized None)
      | Some userID \<Rightarrow>
          (let transactionID = Param c ''id''
           in if IsEmptyString transactionID
              then (db, ErrorResponse c now StatusBadRequest ''MISSING_ID'' msgMissingID None)
              else (case deleteTransaction db transactionID userID of
                      Inl err \<Rightarrow>
                        (db, ErrorResponse c now StatusInternalServerError ''DELETE_ERROR''
                               msgTransactionNotDeleted (Some []))
                    | Inr (db', rowsAffected) \<Rightarrow>
                        if rowsAffected = 0
                        then (db', ErrorResponse c now StatusNotFound ''TRANSACTION_NOT_FOUND''
                                     msgTransactionNotFound None)
                        else (db', SuccessResponse c now None msgTransactionDeleted))))"

section \<open>Notions used to state the properties of the token manager\<close>

text \<open>
  The decoders of the library invert its encoders on the token that \<open>SignedString\<close>
  builds from the given claims and key, and the encoded segments contain no dot.
\<close>

definition serialises :: "lib \<Rightarrow> SigningMethod \<Rightarrow> string \<Rightarrow> Claims \<Rightarrow> bool" where
  "serialises L m key c =
     (let hb = MarshalHeader L (Alg m);
          cb = MarshalClaims L c;
          h = EncodeSegment L hb;
          p = EncodeSegment L cb;
          sg = HMAC L m key (h @ ''.'' @ p);
          s = EncodeSegment L sg
      in CHR ''.'' \<notin> set h \<and> CHR ''.'' \<notin> set p \<and> CHR ''.'' \<notin> set s
         \<and> DecodeSegment L h = Some hb \<and> DecodeSegment L p = Some cb
         \<and> DecodeSegment L s = Some sg
         \<and> UnmarshalHeader L hb = Some (Some (Alg m))
         \<and> UnmarshalClaims L cb = Some c)"

text \<open>The claims a token string carries, if it parses.\<close>

definition parsedClaims :: "lib \<Rightarrow> string \<Rightarrow> Claims option" where
  "parsedClaims L tokenString =
     (case ParseUnverified L tokenString of
        Inl e \<Rightarrow> None
      | Inr (token, parts) \<Rightarrow> Some (TokenClaims token))"

text \<open>The algorithm name in the header of a token string with three segments.\<close>

definition headerAlg :: "lib \<Rightarrow> string \<Rightarrow> string option" where
  "headerAlg L tokenString =
     (let parts = Split (CHR ''.'') tokenString
      in if length parts \<noteq> 3 then None
         else (case DecodeSegment L (parts ! 0) of
                 None \<Rightarrow> None
               | Some headerBytes \<Rightarrow>
                   (case UnmarshalHeader L headerBytes of
                      None \<Rightarrow> None
                    | Some alg \<Rightarrow> alg)))"

text \<open>
  The signature of a token string verifies against a secret: the string parses, its
  method is one of the HMAC family and its third segment decodes to the MAC of the
  first two under that secret.
\<close>

definition signatureVerifies :: "lib \<Rightarrow> string \<Rightarrow> string \<Rightarrow> bool" where
  "signatureVerifies L secret tokenString =
     (case ParseUnverified L tokenString of
        Inl e \<Rightarrow> False
      | Inr (token, parts) \<Rightarrow>
          (case DecodeSegment L (parts ! 2) of
             None \<Rightarrow> False
           | Some sig \<Rightarrow> Verify L (Method token) (parts ! 0 @ ''.'' @ parts ! 1) sig secret))"

text \<open>
  The validity window as the specification words it, closed at both ends, and as the
  validator checks it, open at the expiry; an absent bound does not constrain.
\<close>

definition withinClosed :: "Claims \<Rightarrow> time \<Rightarrow> bool" where
  "withinClosed c now =
     ((case NotBefore c of None \<Rightarrow> True | Some n \<Rightarrow> n \<le> now)
      \<and> (case ExpiresAt c of None \<Rightarrow> True | Some e \<Rightarrow> now \<le> e))"

definition withinValidity :: "Claims \<Rightarrow> time \<Rightarrow> bool" where
  "withinValidity c now =
     ((case NotBefore c of None \<Rightarrow> True | Some n \<Rightarrow> n \<le> now)
      \<and> (case ExpiresAt c of None \<Rightarrow> True | Some e \<Rightarrow> now < e))"

section \<open>Notions used to state the isolation of the users' transactions\<close>

text \<open>The database restricted to the transactions of one user, and the other rows.\<close>

definition ownRows :: "string \<Rightarrow> DB \<Rightarrow> DB" where
  "ownRows userID db = db\<lparr>transactions := filter (\<lambda>r. t_user_id r = userID) (transactions db)\<rparr>"

definition foreignRows :: "string \<Rightarrow> DB \<Rightarrow> transactions_row list" where
  "foreignRows userID db = filter (\<lambda>r. t_user_id r \<noteq> userID) (transactions db)"

text \<open>The transactions that a context carries in the responses written to it.\<close>

fun returned :: "(nat \<times> data body) list \<Rightarrow> Transaction list" where
  "returned [] = []"
| "returned ((st, Envelope r) # ws) =
     (case Data r of Some (TransactionData t) \<Rightarrow> t # returned ws | _ \<Rightarrow> returned ws)"
| "returned ((st, ErrorH code msg) # ws) = returned ws"

section \<open>Notions used to state the registration scenario\<close>

text \<open>
  Of the responses written to a context: the statuses with the error codes (empty for
  a success), and the tokens of the authentication data.
\<close>

fun codes :: "(nat \<times> data body) list \<Rightarrow> (nat \<times> string) list" where
  "codes [] = []"
| "codes ((st, ErrorH code msg) # ws) = (st, code) # codes ws"
| "codes ((st, Envelope r) # ws) =
     (st, case Error r of None \<Rightarrow> [] | Some e \<Rightarrow> Code e) # codes ws"

fun tokens :: "(nat \<times> data body) list \<Rightarrow> string list" where
  "tokens [] = []"
| "tokens ((st, Envelope r) # ws) =
     (case Data r of Some (AuthData a) \<Rightarrow> respToken a # tokens ws | _ \<Rightarrow> tokens ws)"
| "tokens ((st, ErrorH code msg) # ws) = tokens ws"

section \<open>Notions used to state the properties of the password helpers\<close>

text \<open>
  The bcrypt digest, in its textual form, of a password under the cost 14 of
  HashPassword and the given salt bytes.
\<close>

definition digest :: "lib \<Rightarrow> string \<Rightarrow> string \<Rightarrow> string" where
  "digest L unencodedSalt password =
     Base64Encode L (take 23 (Blowfish L 14 unencodedSalt (keyStream (password @ [CHR 0x00]))))"

section \<open>A concrete instance of the library primitives\<close>

text \<open>
  To run the model on concrete requests the primitives are instantiated by small
  stand-ins with the same interface: two letters per byte in place of base64url, the
  algorithm name in place of the JSON header, comma-separated fields in place of the
  JSON claims, the identity in place of the compression by SHA-2, a one-unit
  duration grammar, the first 24 bytes of the key stream in place of the Blowfish
  encryption and padding with dots in place of the base64 dialect of bcrypt.
\<close>

definition nibble :: "nat \<Rightarrow> char" where
  "nibble n = char_of (97 + n)"

definition unnibble :: "char \<Rightarrow> nat option" where
  "unnibble c =
     (let n = (of_char c :: nat) in if 97 \<le> n \<and> n < 113 then Some (n - 97) else None)"

fun hexEncode :: "string \<Rightarrow> string" where
  "hexEncode [] = []"
| "hexEncode (c # cs) = nibble (of_char c div 16) # nibble (of_char c mod 16) # hexEncode cs"

fun hexDecode :: "string \<Rightarrow> string option" where
  "hexDecode [] = Some []"
| "hexDecode [a] = None"
| "hexDecode (a # b # cs) =
     (case unnibble a of
        None \<Rightarrow> None
      | Some h \<Rightarrow>
          (case unnibble b of
             None \<Rightarrow> None
           | Some l \<Rightarrow>
               (case hexDecode cs of
                  None \<Rightarrow> None
                | Some r \<Rightarrow> Some (char_of (h * 16 + l) # r))))"

function showDigits :: "int \<Rightarrow> string" where
  "showDigits n =
     (if n < 10 then [char_of (nat (48 + n))]
      else showDigits (n div 10) @ [char_of (nat (48 + n mod 10))])"
  by pat_completeness auto
termination
  by (relation "measure nat") auto

definition showTime :: "time option \<Rightarrow> string" where
  "showTime t =
     (case t of
        None \<Rightarrow> []
      | Some i \<Rightarrow> if i < 0 then CHR ''-'' # showDigits (- i) else showDigits i)"

definition readTime :: "string \<Rightarrow> time option option" where
  "readTime s =
     (if s = [] then Some None
      else (case Atoi s of (i, None) \<Rightarrow> Some (Some i) | (i, Some e) \<Rightarrow> None))"

fun joinWith :: "char \<Rightarrow> string list \<Rightarrow> string" where
  "joinWith sep [] = []"
| "joinWith sep [x] = x"
| "joinWith sep (x # y # ys) = x @ sep # joinWith sep (y # ys)"

definition fieldsMarshal :: "Claims \<Rightarrow> string" where
  "fieldsMarshal c =
     joinWith (CHR '','')
       [Issuer c, Subject c, joinWith (CHR '';'') (Audience c),
        showTime (ExpiresAt c), showTime (NotBefore c), showTime (IssuedAt c),
        ID c, UserID c, Email c, Role c]"

definition fieldsUnmarshal :: "string \<Rightarrow> Claims option" where
  "fieldsUnmarshal b =
     (let fs = Split (CHR '','') b
      in if length fs \<noteq> 10 then None
         else (case readTime (fs ! 3) of
                 None \<Rightarrow> None
               | Some e \<Rightarrow>
                   (case readTime (fs ! 4) of
                      None \<Rightarrow> None
                    | Some n \<Rightarrow>
                        (case readTime (fs ! 5) of
                           None \<Rightarrow> None
                         | Some i \<Rightarrow>
                             Some \<lparr>Issuer = fs ! 0, Subject = fs ! 1,
                                   Audience = (if fs ! 2 = [] then [] else Split (CHR '';'') (fs ! 2)),
                                   ExpiresAt = e, NotBefore = n, IssuedAt = i,
                                   ID = fs ! 6, UserID = fs ! 7, Email = fs ! 8, Role = fs ! 9\<rparr>))))"

definition unitDuration :: "string \<Rightarrow> duration option" where
  "unitDuration s =
     (if s = [] then None
      else (case Atoi (butlast s) of
              (i, Some e) \<Rightarrow> None
            | (i, None) \<Rightarrow>
                if last s = CHR ''h'' then Some (i * Hour)
                else if last s = CHR ''m'' then Some (i * Minute)
                else if last s = CHR ''s'' then Some (i * Second)
                else None))"

definition dotPad :: "string \<Rightarrow> string" where
  "dotPad s = s @ replicate ((length s + 2) div 3) (CHR ''.'')"

definition dotUnpad :: "string \<Rightarrow> string option" where
  "dotUnpad t =
     (let n = (3 * length t) div 4
      in if drop n t = replicate (length t - n) (CHR ''.'') then Some (take n t) else None)"

definition testLib :: lib where
  "testLib =
     \<lparr>Hash = (\<lambda>m s. s),
      EncodeSegment = hexEncode,
      DecodeSegment = hexDecode,
      MarshalHeader = (\<lambda>alg. alg),
      UnmarshalHeader = (\<lambda>b. Some (Some b)),
      MarshalClaims = fieldsMarshal,
      UnmarshalClaims = fieldsUnmarshal,
      ParseDuration = unitDuration,
      Blowfish = (\<lambda>cost csalt keyStream. take 24 keyStream),
      Base64Encode = dotPad,
      Base64Decode = dotUnpad\<rparr>"

section \<open>Sample data\<close>

text \<open>
  A manager with the default configuration (no environment variable set), three clock
  readings within one second, and the token issued from them for a sample user.
\<close>

definition noEnv :: environ where
  "noEnv = (\<lambda>name. [])"

definition sampleManager :: JWTManager where
  "sampleManager = NewJWTManager testLib noEnv"

definition sampleClock :: "time \<times> time \<times> time" where
  "sampleClock = (1700000000123456789, 1700000000123456790, 1700000000123456791)"

definition sampleClaims :: Claims where
  "sampleClaims =
     newClaims sampleManager sampleClock ''7c9e6679-7425-40de-944b-e07fc1f90ae7''
       ''u-1'' ''alice@example.com'' ''farmer''"

definition sampleToken :: string where
  "sampleToken =
     (case GenerateToken testLib sampleManager sampleClock ''7c9e6679-7425-40de-944b-e07fc1f90ae7''
             ''u-1'' ''alice@example.com'' ''farmer'' of
        Inr t \<Rightarrow> t
      | Inl e \<Rightarrow> [])"

text \<open>
  Three more tokens for the sample claims: one signed with another secret, one signed
  with the default secret followed by a zero byte, and an unsigned one whose header
  names the algorithm \<open>none\<close>.
\<close>

definition foreignToken :: string where
  "foreignToken =
     (case SignedString testLib HS256 sampleClaims ''another-secret'' of
        Inr t \<Rightarrow> t
      | Inl e \<Rightarrow> [])"

definition paddedKeyToken :: string where
  "paddedKeyToken =
     (case SignedString testLib HS256 sampleClaims (''default-secret-key'' @ [CHR 0x00]) of
        Inr t \<Rightarrow> t
      | Inl e \<Rightarrow> [])"

definition unsignedToken :: string where
  "unsignedToken =
     EncodeSegment testLib (MarshalHeader testLib ''none'') @ ''.''
       @ EncodeSegment testLib (MarshalClaims testLib sampleClaims) @ ''.''"

text \<open>A request with the given headers on which no middleware has run yet.\<close>

definition request :: "(string \<rightharpoonup> string) \<Rightarrow> data Context" where
  "request headers =
     \<lparr>Header = headers, Params = Map.empty, Query = Map.empty, Keys = Map.empty,
      Written = [], Aborted = False, Panicked = None\<rparr>"

text \<open>
  A database with one transaction of user \<open>u-1\<close> and one of user \<open>u-2\<close>, and the
  request of user \<open>u-1\<close>, past the middleware, for the transaction of user \<open>u-2\<close>.
\<close>

definition sampleRow :: "string \<Rightarrow> string \<Rightarrow> transactions_row" where
  "sampleRow transactionID userID =
     \<lparr>t_id = transactionID, t_user_id = userID, t_type = ''income'', t_category = ''sales'',
      t_description = ''wheat'', t_amount = 100, t_currency = Some ''TRY'',
      t_date = 1700000000000000000, t_status = Some ''completed'',
      t_payment_method = Some ''cash'', t_receipt = Some [], t_notes = Some [],
      t_created_at = Some 1700000000000000000, t_updated_at = Some 1700000000000000000\<rparr>"

definition sampleDB :: DB where
  "sampleDB = \<lparr>users = [], transactions = [sampleRow ''t-1'' ''u-1'', sampleRow ''t-2'' ''u-2''],
               available = True\<rparr>"

definition sampleUpdate :: Transaction where
  "sampleUpdate =
     \<lparr>tID = [], tUserID = [], tType = ''expense'', tCategory = ''feed'', tDescription = ''hay'',
      tAmount = 250, tCurrency = ''TRY'', tDate = 1700000100000000000, tStatus = ''completed'',
      tPaymentMethod = ''card'', tReceipt = [], tNotes = [],
      tCreatedAt = zeroTime, tUpdatedAt = zeroTime\<rparr>"

definition foreignRequest :: "data Context" where
  "foreignRequest =
     (request Map.empty)
       \<lparr>Params := [''id'' \<mapsto> ''t-2''],
        Keys := [''request_id'' \<mapsto> ''req-1'', ''user_id'' \<mapsto> ''u-1'',
                 ''user_email'' \<mapsto> ''alice@example.com'', ''user_role'' \<mapsto> ''farmer'']\<rparr>"

text \<open>
  The registration of the scenario on an empty database, behind the RequestID
  middleware, and a call of the protected logout route (RequestID, Auth, Logout) with
  given request headers five seconds later.
\<close>

definition emptyDB :: DB where
  "emptyDB = \<lparr>users = [], transactions = [], available = True\<rparr>"

definition aliceRequest :: RegisterRequest where
  "aliceRequest =
     \<lparr>reqName = ''Alice'', reqEmail = ''alice@example.com'', reqPassword = ''secret123'',
      reqConfirmPassword = ''secret123'', reqFarmName = ''Green Acres'', reqLocation = ''Konya''\<rparr>"

definition sampleEntropy :: entropy where
  "sampleEntropy =
     \<lparr>saltBytes = Some ''0123456789abcdef'',
      userUUID = ''u-1'',
      tokenUUID = ''7c9e6679-7425-40de-944b-e07fc1f90ae7'',
      refreshUUID = ''f47ac10b-58cc-4372-a567-0e02b2c3d479'',
      tokenClock = sampleClock,
      refreshClock = (1700000000123456792, 1700000000123456793, 1700000000123456794),
      dbTime = 1700000000000000000,
      responseTime = 1700000000123456795\<rparr>"

definition registerCall :: "data Context" where
  "registerCall =
     RequestID' ''req-1''
       (\<lambda>c. snd (Register testLib noEnv emptyDB (Inr aliceRequest) sampleEntropy c))
       (request Map.empty)"

definition protectedCall :: "(string \<rightharpoonup> string) \<Rightarrow> data Context" where
  "protectedCall headers =
     RequestID' ''req-2''
       (Auth testLib noEnv 1700000005000000000 (Logout 1700000005000000001))
       (request headers)"

section \<open>Properties of the pagination helpers\<close>

lemma wrap64_id: "MinInt64 \<le> x \<Longrightarrow> x \<le> MaxInt64 \<Longrightarrow> wrap64 x = x"
  by (simp add: wrap64_def MinInt64_def MaxInt64_def)

lemma parseDigits_ge: "parseDigits acc s = Some n \<Longrightarrow> 0 \<le> acc \<Longrightarrow> acc \<le> n"
proof (induction s arbitrary: acc)
  case Nil
  then show ?case by simp
next
  case (Cons c cs)
  from Cons.prems have d: "isDigit c" and r: "parseDigits (acc * 10 + (of_char c - 48)) cs = Some n"
    by (auto split: if_splits)
  from d have "0 \<le> (of_char c :: int) - 48" by (simp add: isDigit_def)
  with Cons.prems(2) have "0 \<le> acc * 10 + (of_char c - 48)" "acc \<le> acc * 10 + (of_char c - 48)"
    by auto
  with Cons.IH [OF r] show ?case by linarith
qed

lemma parseDigits_lt:
  "parseDigits acc s = Some n \<Longrightarrow> 0 \<le> acc \<Longrightarrow> n < (acc + 1) * 10 ^ length s"
proof (induction s arbitrary: acc)
  case Nil
  then show ?case by simp
next
  case (Cons c cs)
  let ?a = "acc * 10 + (of_char c - 48)"
  from Cons.prems have d: "isDigit c" and r: "parseDigits ?a cs = Some n"
    by (auto split: if_splits)
  from d have b: "0 \<le> (of_char c :: int) - 48" "(of_char c :: int) - 48 \<le> 9"
    by (simp_all add: isDigit_def)
  with Cons.prems(2) have nn: "0 \<le> ?a" by simp
  from b have le: "?a + 1 \<le> (acc + 1) * 10" by simp
  have "n < (?a + 1) * 10 ^ length cs" by (rule Cons.IH [OF r nn])
  also have "\<dots> \<le> ((acc + 1) * 10) * 10 ^ length cs"
    using le by (intro mult_right_mono) simp_all
  finally show ?case by (simp add: algebra_simps)
qed

lemma parseDigits_fast:
  assumes "parseDigits 0 s = Some n" "length s < 19"
  shows "0 \<le> n \<and> n < 1000000000000000000"
proof -
  have "n < (10::int) ^ length s" using parseDigits_lt [OF assms(1)] by simp
  also have "(10::int) ^ length s \<le> 10 ^ 18"
    using assms(2) by (intro power_increasing) simp_all
  finally have "n < 1000000000000000000" by simp
  moreover have "0 \<le> n" using parseDigits_ge [OF assms(1)] by simp
  ultimately show ?thesis by simp
qed

lemma scanUint_nonneg: "0 \<le> n \<Longrightarrow> 0 \<le> fst (scanUint n s)"
proof (induction s arbitrary: n)
  case Nil
  then show ?case by simp
next
  case (Cons c cs)
  show ?case
  proof (cases "isDigit c \<and> n < maxUint64 div 10 + 1 \<and> n * 10 + (of_char c - 48) \<le> maxUint64")
    case True
    then have "0 \<le> (of_char c :: int) - 48" by (simp add: isDigit_def)
    with Cons.prems have "0 \<le> n * 10 + (of_char c - 48)" by simp
    from Cons.IH [OF this] True show ?thesis by (simp add: Let_def)
  next
    case False
    then show ?thesis by (auto simp: Let_def maxUint64_def)
  qed
qed

lemma ParseUint_nonneg: "0 \<le> fst (ParseUint s)"
  by (simp add: ParseUint_def scanUint_nonneg)

lemma ParseInt_range: "MinInt64 \<le> fst (ParseInt s) \<and> fst (ParseInt s) \<le> MaxInt64"
proof (cases s)
  case Nil
  then show ?thesis by (simp add: ParseInt_def MinInt64_def MaxInt64_def)
next
  case (Cons c cs)
  let ?ds = "if c = CHR ''+'' \<or> c = CHR ''-'' then cs else s"
  obtain un err where u: "ParseUint ?ds = (un, err)" by (cases "ParseUint ?ds")
  have "0 \<le> un" using ParseUint_nonneg [of ?ds] u by simp
  then show ?thesis
    using u unfolding Cons ParseInt_def Let_def MinInt64_def MaxInt64_def
    by (simp split: if_splits)
qed

lemma Atoi_slow: "\<not> (s \<noteq> [] \<and> length s < 19) \<Longrightarrow> Atoi s = ParseInt s"
  by (cases s) (simp_all add: Atoi_def)

lemma Atoi_fast:
  assumes "length (c # cs) < 19" "ds = (if c = CHR ''-'' \<or> c = CHR ''+'' then cs else c # cs)"
  shows "Atoi (c # cs) =
           (if ds = [] then (0, Some ErrSyntax)
            else (case parseDigits 0 ds of
                    None \<Rightarrow> (0, Some ErrSyntax)
                  | Some n \<Rightarrow> (if c = CHR ''-'' then - n else n, None)))"
  using assms(1) unfolding assms(2) Atoi_def Let_def
  by (simp del: parseDigits.simps)

lemma Atoi_range: "MinInt64 \<le> fst (Atoi s) \<and> fst (Atoi s) \<le> MaxInt64"
proof (cases "s \<noteq> [] \<and> length s < 19")
  case False
  then show ?thesis using Atoi_slow [OF False] ParseInt_range by simp
next
  case True
  then obtain c cs where s: "s = c # cs" by (cases s) auto
  define ds where "ds = (if c = CHR ''-'' \<or> c = CHR ''+'' then cs else c # cs)"
  have l: "length ds < 19" using True s by (auto simp: ds_def)
  have a: "Atoi s =
           (if ds = [] then (0, Some ErrSyntax)
            else (case parseDigits 0 ds of
                    None \<Rightarrow> (0, Some ErrSyntax)
                  | Some n \<Rightarrow> (if c = CHR ''-'' then - n else n, None)))"
    unfolding s using True s ds_def by (intro Atoi_fast) simp_all
  show ?thesis
  proof (cases "parseDigits 0 ds")
    case None
    then show ?thesis by (simp add: a MinInt64_def MaxInt64_def)
  next
    case (Some n)
    from parseDigits_fast [OF Some l] have "0 \<le> n" "n < 1000000000000000000" by simp_all
    then show ?thesis using Some by (simp add: a MinInt64_def MaxInt64_def)
  qed
qed

lemma ceil_div: 
  assumes b: "0 < b"
  shows "\<lceil>real_of_int a / real_of_int b\<rceil> = (a + b - 1) div b"
proof -
  have c: "\<lceil>real_of_int a / real_of_int b\<rceil> = - (- a div b)"
    by (simp add: ceiling_divide_eq_div)
  have m: "0 \<le> a mod b" "a mod b < b" using b by simp_all
  show ?thesis
  proof (cases "a mod b = 0")
    case True
    have "a + b - 1 = b * (a div b) + (b - 1)" using True
      by (metis add_diff_eq mult_div_mod_eq add.right_neutral)
    then have "(a + b - 1) div b = a div b"
      using b by (intro int_div_pos_eq [where r = "b - 1"]) auto
    moreover have "- a div b = - (a div b)" using True b
      by (simp add: zdiv_zminus1_eq_if)
    ultimately show ?thesis using c by simp
  next
    case False
    have "a + b - 1 = b * (a div b + 1) + (a mod b - 1)"
    proof -
      have "a = b * (a div b) + a mod b" by simp
      then show ?thesis by (simp add: algebra_simps)
    qed
    then have "(a + b - 1) div b = a div b + 1"
      using b m False by (intro int_div_pos_eq [where r = "a mod b - 1"]) auto
    moreover have "- a div b = - (a div b) - 1" using False b
      by (simp add: zdiv_zminus1_eq_if)
    ultimately show ?thesis using c by simp
  qed
qed

lemma Atoi_1: "Atoi ''1'' = (1, None)"
  by (simp add: Atoi_def isDigit_def)

lemma Atoi_10: "Atoi ''10'' = (10, None)"
  by (simp add: Atoi_def isDigit_def)

lemma ParseInt_syntax_zero: "snd (ParseInt s) = Some ErrSyntax \<Longrightarrow> fst (ParseInt s) = 0"
  by (cases s) (auto simp: ParseInt_def Let_def split: prod.splits if_splits)

lemma Atoi_syntax_zero: "snd (Atoi s) = Some ErrSyntax \<Longrightarrow> fst (Atoi s) = 0"
proof (cases "s \<noteq> [] \<and> length s < 19")
  case False
  show "snd (Atoi s) = Some ErrSyntax \<Longrightarrow> fst (Atoi s) = 0"
    using Atoi_slow [OF False] ParseInt_syntax_zero by simp
next
  case True
  then obtain c cs where s: "s = c # cs" by (cases s) auto
  define ds where "ds = (if c = CHR ''-'' \<or> c = CHR ''+'' then cs else c # cs)"
  have a: "Atoi s =
           (if ds = [] then (0, Some ErrSyntax)
            else (case parseDigits 0 ds of
                    None \<Rightarrow> (0, Some ErrSyntax)
                  | Some n \<Rightarrow> (if c = CHR ''-'' then - n else n, None)))"
    unfolding s using True s ds_def by (intro Atoi_fast) simp_all
  show "snd (Atoi s) = Some ErrSyntax \<Longrightarrow> fst (Atoi s) = 0"
    by (simp add: a split: option.splits if_splits)
qed

lemma ParseInt_error_not_limit:
  "snd (ParseInt s) \<noteq> None \<Longrightarrow> fst (ParseInt s) < 1 \<or> fst (ParseInt s) > 100"
  by (cases s)
     (auto simp: ParseInt_def Let_def MaxInt64_def MinInt64_def split: prod.splits if_splits)

lemma Atoi_error_not_limit:
  "snd (Atoi s) \<noteq> None \<Longrightarrow> fst (Atoi s) < 1 \<or> fst (Atoi s) > 100"
proof (cases "s \<noteq> [] \<and> length s < 19")
  case False
  show "snd (Atoi s) \<noteq> None \<Longrightarrow> fst (Atoi s) < 1 \<or> fst (Atoi s) > 100"
    using Atoi_slow [OF False] ParseInt_error_not_limit by simp
next
  case True
  then obtain c cs where s: "s = c # cs" by (cases s) auto
  define ds where "ds = (if c = CHR ''-'' \<or> c = CHR ''+'' then cs else c # cs)"
  have a: "Atoi s =
           (if ds = [] then (0, Some ErrSyntax)
            else (case parseDigits 0 ds of
                    None \<Rightarrow> (0, Some ErrSyntax)
                  | Some n \<Rightarrow> (if c = CHR ''-'' then - n else n, None)))"
    unfolding s using True s ds_def by (intro Atoi_fast) simp_all
  show "snd (Atoi s) \<noteq> None \<Longrightarrow> fst (Atoi s) < 1 \<or> fst (Atoi s) > 100"
    by (simp add: a split: option.splits if_splits)
qed

text \<open>
  What ParsePagination guarantees for every query string: a page from 1 up to the
  largest \<open>int\<close> and a limit from 1 to 100.  The page is 1 when the page value is
  missing, is not a decimal integer, or is below 1, and is the parsed value otherwise;
  the limit is 10 when the limit value is missing, does not parse as a 64-bit integer,
  or lies outside 1..100, and is the parsed value otherwise.
\<close>

lemma ParsePagination_defaults:
  "1 \<le> fst (ParsePagination q) \<and> fst (ParsePagination q) \<le> MaxInt64
   \<and> 1 \<le> snd (ParsePagination q) \<and> snd (ParsePagination q) \<le> 100
   \<and> (snd (Atoi (DefaultQuery q ''page'' ''1'')) = Some ErrSyntax
        \<or> fst (Atoi (DefaultQuery q ''page'' ''1'')) < 1 \<longrightarrow> fst (ParsePagination q) = 1)
   \<and> (1 \<le> fst (Atoi (DefaultQuery q ''page'' ''1''))
        \<longrightarrow> fst (ParsePagination q) = fst (Atoi (DefaultQuery q ''page'' ''1'')))
   \<and> (snd (Atoi (DefaultQuery q ''limit'' ''10'')) \<noteq> None
        \<or> fst (Atoi (DefaultQuery q ''limit'' ''10'')) < 1
        \<or> fst (Atoi (DefaultQuery q ''limit'' ''10'')) > 100 \<longrightarrow> snd (ParsePagination q) = 10)
   \<and> (1 \<le> fst (Atoi (DefaultQuery q ''limit'' ''10''))
        \<and> fst (Atoi (DefaultQuery q ''limit'' ''10'')) \<le> 100
        \<longrightarrow> snd (ParsePagination q) = fst (Atoi (DefaultQuery q ''limit'' ''10'')))
   \<and> (q ''page'' = None \<longrightarrow> fst (ParsePagination q) = 1)
   \<and> (q ''limit'' = None \<longrightarrow> snd (ParsePagination q) = 10)"
proof -
  let ?p = "Atoi (DefaultQuery q ''page'' ''1'')"
  let ?l = "Atoi (DefaultQuery q ''limit'' ''10'')"
  have fp: "fst (ParsePagination q) = (if fst ?p < 1 then 1 else fst ?p)"
    by (simp add: ParsePagination_def Let_def)
  have sp: "snd (ParsePagination q) = (if fst ?l < 1 \<or> fst ?l > 100 then 10 else fst ?l)"
    by (simp add: ParsePagination_def Let_def)
  have r: "fst ?p \<le> MaxInt64" using Atoi_range by blast
  have "1 \<le> fst (ParsePagination q)" by (simp add: fp)
  moreover have "fst (ParsePagination q) \<le> MaxInt64" using r by (simp add: fp MaxInt64_def)
  moreover have "1 \<le> snd (ParsePagination q)" by (simp add: sp)
  moreover have "snd (ParsePagination q) \<le> 100" by (simp add: sp)
  moreover have "snd ?p = Some ErrSyntax \<or> fst ?p < 1 \<longrightarrow> fst (ParsePagination q) = 1"
    using Atoi_syntax_zero [of "DefaultQuery q ''page'' ''1''"] by (auto simp: fp)
  moreover have "1 \<le> fst ?p \<longrightarrow> fst (ParsePagination q) = fst ?p"
    by (simp add: fp)
  moreover have "snd ?l \<noteq> None \<or> fst ?l < 1 \<or> fst ?l > 100 \<longrightarrow> snd (ParsePagination q) = 10"
    using Atoi_error_not_limit [of "DefaultQuery q ''limit'' ''10''"] by (auto simp: sp)
  moreover have "1 \<le> fst ?l \<and> fst ?l \<le> 100 \<longrightarrow> snd (ParsePagination q) = fst ?l"
    by (simp add: sp)
  moreover have "q ''page'' = None \<longrightarrow> fst (ParsePagination q) = 1"
    by (simp add: fp DefaultQuery_def Atoi_1)
  moreover have "q ''limit'' = None \<longrightarrow> snd (ParsePagination q) = 10"
    by (simp add: sp DefaultQuery_def Atoi_10)
  ultimately show ?thesis by blast
qed

lemma Atoi_over_range: "Atoi ''99999999999999999999'' = (MaxInt64, Some ErrRange)"
  by (simp add: Atoi_def ParseInt_def ParseUint_def isDigit_def maxUint64_def MaxInt64_def)

lemma Atoi_over_range_tail: "Atoi ''99999999999999999999x'' = (MaxInt64, Some ErrRange)"
  by (simp add: Atoi_def ParseInt_def ParseUint_def isDigit_def maxUint64_def MaxInt64_def)

lemma Atoi_abc: "Atoi ''abc'' = (0, Some ErrSyntax)"
  by (simp add: Atoi_def isDigit_def)

text \<open>
  Claim C10.  For every pair of query-string values for \<open>page\<close> and \<open>limit\<close>,
  ParsePagination should return a page of at least 1 and a limit between 1 and 100,
  with page 1 and limit 10 in place of a value that is out of range or does not parse.
  The code does so except for a page value beyond the 64-bit range.  For
  \<open>page=99999999999999999999\<close> \<open>strconv.Atoi\<close> returns the largest \<open>int\<close> together
  with a range error; ParsePagination drops the error, and its only test on the page,
  \<open>page < 1\<close>, lets the value through.  The page returned is 9223372036854775807 and
  not 1 (trailing garbage after the digits changes nothing), and the offset
  \<open>(page - 1) * limit\<close> that the list handlers compute from it wraps around to -20.
  The same value given for \<open>limit\<close> is replaced by 10, and a page value that is not a
  number is replaced by 1.
\<close>

theorem ParsePagination_overflow:
  "Atoi ''99999999999999999999'' = (9223372036854775807, Some ErrRange)
   \<and> ParsePagination [''page'' \<mapsto> ''99999999999999999999''] = (9223372036854775807, 10)
   \<and> ParsePagination [''page'' \<mapsto> ''99999999999999999999x''] = (9223372036854775807, 10)
   \<and> pageOffset 9223372036854775807 10 = - 20
   \<and> ParsePagination [''limit'' \<mapsto> ''99999999999999999999''] = (1, 10)
   \<and> ParsePagination [''page'' \<mapsto> ''abc''] = (1, 10)"
proof -
  have a: "Atoi ''99999999999999999999'' = (9223372036854775807, Some ErrRange)"
    using Atoi_over_range by (simp add: MaxInt64_def)
  have b: "Atoi ''99999999999999999999x'' = (9223372036854775807, Some ErrRange)"
    using Atoi_over_range_tail by (simp add: MaxInt64_def)
  have "ParsePagination [''page'' \<mapsto> ''99999999999999999999''] = (9223372036854775807, 10)"
    by (simp add: ParsePagination_def DefaultQuery_def a Atoi_10)
  moreover have
    "ParsePagination [''page'' \<mapsto> ''99999999999999999999x''] = (9223372036854775807, 10)"
    by (simp add: ParsePagination_def DefaultQuery_def b Atoi_10)
  moreover have "pageOffset 9223372036854775807 10 = - 20"
    by (simp add: pageOffset_def go_mul_def go_sub_def wrap64_def)
  moreover have "ParsePagination [''limit'' \<mapsto> ''99999999999999999999''] = (1, 10)"
    by (simp add: ParsePagination_def DefaultQuery_def a Atoi_1)
  moreover have "ParsePagination [''page'' \<mapsto> ''abc''] = (1, 10)"
    by (simp add: ParsePagination_def DefaultQuery_def Atoi_abc Atoi_10)
  ultimately show ?thesis using a by simp
qed

lemma go_quo_nonneg:
  assumes "0 \<le> a" "0 < b" "a \<le> MaxInt64"
  shows "go_quo a b = Inr (a div b)"
proof -
  have t: "sgn a * sgn b * (\<bar>a\<bar> div \<bar>b\<bar>) = a div b"
  proof (cases "a = 0")
    case True
    then show ?thesis by simp
  next
    case False
    with assms have "sgn a = 1" "sgn b = 1" "\<bar>a\<bar> = a" "\<bar>b\<bar> = b" by simp_all
    then show ?thesis by simp
  qed
  have "0 \<le> a div b" using assms by (simp add: pos_imp_zdiv_nonneg_iff)
  moreover have "a div b \<le> a" using zdiv_mono2 [of a 1 b] assms by simp
  ultimately have "wrap64 (a div b) = a div b"
    using assms(3) by (intro wrap64_id) (simp_all add: MinInt64_def)
  with t assms(2) show ?thesis by (simp add: go_quo_def)
qed

text \<open>
  Claim C8 (as amended).  For a page of at least 1, a limit between 1 and 100 and a
  non-negative total, with the 64-bit product and sum not overflowing, the offset of the
  list handlers is \<open>(page - 1) * limit\<close> and CalculatePagination reports
  \<open>ceil(total / limit)\<close> total pages, raised to 1 when that is 0.
\<close>

theorem pagination_math:
  assumes "1 \<le> page" "1 \<le> limit" "limit \<le> 100" "0 \<le> totl"
    and "(page - 1) * limit \<le> MaxInt64" "totl + limit \<le> MaxInt64"
  shows "pageOffset page limit = (page - 1) * limit
       \<and> CalculatePagination page limit totl =
           Inr \<lparr>Page = page, Limit = limit, Total = totl,
                TotalPages = max 1 \<lceil>real_of_int totl / real_of_int limit\<rceil>\<rparr>"
proof -
  have "page - 1 \<le> (page - 1) * limit"
    using assms(1,2) by (simp add: mult_le_cancel_left1)
  then have p: "page - 1 \<le> MaxInt64"
    using assms(5) by linarith
  have "go_sub page 1 = page - 1"
    using assms(1) p by (simp add: go_sub_def wrap64_id MinInt64_def)
  moreover have "0 \<le> (page - 1) * limit"
    using assms(1,2) by simp
  then have "wrap64 ((page - 1) * limit) = (page - 1) * limit"
    using assms(5) by (intro wrap64_id) (simp_all add: MinInt64_def)
  ultimately have off: "pageOffset page limit = (page - 1) * limit"
    by (simp add: pageOffset_def go_mul_def)
  have s1: "go_add totl limit = totl + limit"
    using assms by (simp add: go_add_def wrap64_id MinInt64_def)
  have s2: "go_sub (totl + limit) 1 = totl + limit - 1"
    using assms by (simp add: go_sub_def wrap64_id MinInt64_def MaxInt64_def)
  have nn: "0 \<le> (totl + limit - 1) div limit" using assms by (simp add: pos_imp_zdiv_nonneg_iff)
  have le: "(totl + limit - 1) div limit \<le> totl + limit - 1"
    using zdiv_mono2 [of "totl + limit - 1" 1 limit] assms(2,4) by simp
  have q: "go_quo (totl + limit - 1) limit = Inr ((totl + limit - 1) div limit)"
    using assms by (intro go_quo_nonneg) (simp_all add: MaxInt64_def)
  have c: "\<lceil>real_of_int totl / real_of_int limit\<rceil> = (totl + limit - 1) div limit"
    using assms by (intro ceil_div) simp
  have "CalculatePagination page limit totl =
           Inr \<lparr>Page = page, Limit = limit, Total = totl,
                TotalPages = max 1 \<lceil>real_of_int totl / real_of_int limit\<rceil>\<rparr>"
    by (simp add: CalculatePagination_def s1 s2 q c Let_def max_def)
  with off show ?thesis by simp
qed

theorem pagination_math_witness:
  "(1::int) \<le> 3 \<and> (1::int) \<le> 10 \<and> (10::int) \<le> 100 \<and> (0::int) \<le> 25
   \<and> (3 - 1) * 10 \<le> MaxInt64 \<and> 25 + 10 \<le> MaxInt64
   \<and> pageOffset 3 10 = 20
   \<and> CalculatePagination 3 10 25 = Inr \<lparr>Page = 3, Limit = 10, Total = 25, TotalPages = 3\<rparr>"
proof -
  have h: "(1::int) \<le> 3" "(1::int) \<le> 10" "(10::int) \<le> 100" "(0::int) \<le> 25"
    "(3 - 1) * 10 \<le> MaxInt64" "25 + 10 \<le> MaxInt64"
    by (simp_all add: MaxInt64_def)
  have c: "\<lceil>real_of_int 25 / real_of_int 10\<rceil> = (3::int)"
    by (simp add: ceiling_eq_iff)
  show ?thesis
    using h pagination_math [OF h] c by simp
qed

text \<open>
  With no rows at all the helper still reports one page, although \<open>ceil(0 / 10) = 0\<close>.
\<close>

theorem pagination_math_counterexample:
  "CalculatePagination 1 10 0 = Inr \<lparr>Page = 1, Limit = 10, Total = 0, TotalPages = 1\<rparr>
   \<and> \<lceil>real_of_int 0 / real_of_int 10\<rceil> = (0::int)"
  by (simp add: CalculatePagination_def go_quo_def go_sub_def go_add_def wrap64_def)

section \<open>Properties of the string helpers and of the concrete instance\<close>

lemma Split_nonempty: "Split sep s \<noteq> []"
  by (induction s) (auto split: list.splits)

lemma Split_nosep: "sep \<notin> set s \<Longrightarrow> Split sep s = [s]"
  by (induction s) auto

lemma Split_append: "sep \<notin> set a \<Longrightarrow> Split sep (a @ sep # b) = a # Split sep b"
  by (induction a) auto

lemma Split_three:
  assumes "sep \<notin> set a" "sep \<notin> set b" "sep \<notin> set c"
  shows "Split sep (a @ [sep] @ b @ [sep] @ c) = [a, b, c]"
  using assms by (simp add: Split_append Split_nosep)

lemma unnibble_nibble: "k < 16 \<Longrightarrow> unnibble (nibble k) = Some k"
  by (simp add: unnibble_def nibble_def)

lemma nibble_not_dot: "k < 16 \<Longrightarrow> nibble k \<noteq> CHR ''.''"
proof
  assume k: "k < 16" and "nibble k = CHR ''.''"
  then have "(of_char (nibble k) :: nat) = of_char (CHR ''.'')" by simp
  with k show False by (simp add: nibble_def)
qed

lemma of_char_div16: "(of_char c :: nat) div 16 < 16"
proof -
  have "(of_char c :: nat) < 16 * 16" by simp
  then show ?thesis by (rule less_mult_imp_div_less)
qed

lemma hexEncode_no_dot: "CHR ''.'' \<notin> set (hexEncode s)"
proof (induction s)
  case Nil
  then show ?case by simp
next
  case (Cons c cs)
  have "nibble (of_char c div 16) \<noteq> CHR ''.''" "nibble (of_char c mod 16) \<noteq> CHR ''.''"
    by (rule nibble_not_dot, simp add: of_char_div16)+
  then show ?case using Cons by (metis hexEncode.simps(2) set_ConsD)
qed

lemma hexDecode_hexEncode: "hexDecode (hexEncode s) = Some s"
proof (induction s)
  case Nil
  then show ?case by simp
next
  case (Cons c cs)
  have d: "(of_char c :: nat) div 16 < 16" and m: "(of_char c :: nat) mod 16 < 16"
    by (simp_all add: of_char_div16)
  have "char_of ((of_char c :: nat) div 16 * 16 + of_char c mod 16) = c"
    by simp
  then show ?case using Cons by (simp add: unnibble_nibble [OF d] unnibble_nibble [OF m])
qed

section \<open>Properties of the token manager\<close>

lemma GetSigningMethod_Alg: "isHMAC m \<Longrightarrow> GetSigningMethod (Alg m) = Some m"
  by (cases m) (simp_all add: GetSigningMethod_def)

lemma GetSigningMethod_HMAC_iff:
  "(\<exists>m. GetSigningMethod a = Some m \<and> isHMAC m) \<longleftrightarrow> a \<in> {''HS256'', ''HS384'', ''HS512''}"
  by (auto simp: GetSigningMethod_def split: if_splits)

lemma SignedString_eq:
  "SignedString L m c key =
     Inr (EncodeSegment L (MarshalHeader L (Alg m)) @ ''.'' @ EncodeSegment L (MarshalClaims L c) @ ''.''
          @ EncodeSegment L (HMAC L m key (EncodeSegment L (MarshalHeader L (Alg m)) @ ''.''
                                             @ EncodeSegment L (MarshalClaims L c))))"
  by (simp add: SignedString_def SigningString_def Let_def)

lemma ParseUnverified_signed:
  assumes s: "serialises L m key c" and h: "isHMAC m" and t: "SignedString L m c key = Inr tok"
  shows "ParseUnverified L tok =
           Inr (\<lparr>Method = m, TokenClaims = c, Signature = [], Valid = False\<rparr>,
                [EncodeSegment L (MarshalHeader L (Alg m)),
                 EncodeSegment L (MarshalClaims L c),
                 EncodeSegment L (HMAC L m key (EncodeSegment L (MarshalHeader L (Alg m)) @ ''.''
                                             @ EncodeSegment L (MarshalClaims L c)))])"
proof -
  let ?h = "EncodeSegment L (MarshalHeader L (Alg m))"
  let ?p = "EncodeSegment L (MarshalClaims L c)"
  let ?s = "EncodeSegment L (HMAC L m key (?h @ ''.'' @ ?p))"
  from s have nd: "CHR ''.'' \<notin> set ?h" "CHR ''.'' \<notin> set ?p" "CHR ''.'' \<notin> set ?s"
    and dh: "DecodeSegment L ?h = Some (MarshalHeader L (Alg m))"
    and dp: "DecodeSegment L ?p = Some (MarshalClaims L c)"
    and uh: "UnmarshalHeader L (MarshalHeader L (Alg m)) = Some (Some (Alg m))"
    and uc: "UnmarshalClaims L (MarshalClaims L c) = Some c"
    by (simp_all add: serialises_def Let_def)
  from t have tok: "tok = ?h @ [CHR ''.''] @ ?p @ [CHR ''.''] @ ?s"
    by (simp add: SignedString_eq)
  have sp: "Split (CHR ''.'') tok = [?h, ?p, ?s]"
    unfolding tok using nd by (rule Split_three)
  show ?thesis
    by (simp add: ParseUnverified_def sp dh dp uh uc GetSigningMethod_Alg [OF h])
qed

lemma ValidateToken_signed:
  assumes s: "serialises L m key c" and h: "isHMAC m" and t: "SignedString L m c key = Inr tok"
  shows "ValidateToken L j now tok =
           (if HMAC L m key (SigningString L m c) \<noteq> HMAC L m (secretKey j) (SigningString L m c)
            then Inl ErrTokenSignatureInvalid
            else if \<not> Validate c now then Inl ErrTokenInvalidClaims
            else Inr c)"
proof -
  from s have ds: "DecodeSegment L (EncodeSegment L (HMAC L m key (SigningString L m c)))
                     = Some (HMAC L m key (SigningString L m c))"
    by (simp add: serialises_def Let_def SigningString_def)
  show ?thesis
    using h ds
    by (simp add: ValidateToken_def ParseWithClaims_def ParseUnverified_signed [OF s h t]
        keyFunc_def Verify_def SigningString_def)
qed

lemma NewNumericDate_le: "NewNumericDate t \<le> t"
  by (simp add: NewNumericDate_def Truncate_def Second_def)

lemma Validate_newClaims:
  "Validate (newClaims j (t1, t2, t3) uuid userID email role) now
     \<longleftrightarrow> now < NewNumericDate (t1 + tokenDuration j) \<and> NewNumericDate t3 \<le> now"
  by (auto simp: Validate_def verifyExpiresAt_def verifyNotBefore_def newClaims_def)

lemma ValidateToken_generated:
  assumes s: "serialises L HS256 (secretKey j) (newClaims j (t1, t2, t3) uuid userID email role)"
    and w: "NewNumericDate t3 \<le> now" "now < NewNumericDate (t1 + tokenDuration j)"
  shows "\<exists>tok. GenerateToken L j (t1, t2, t3) uuid userID email role = Inr tok
           \<and> ValidateToken L j now tok = Inr (newClaims j (t1, t2, t3) uuid userID email role)"
proof -
  obtain tok where t: "GenerateToken L j (t1, t2, t3) uuid userID email role = Inr tok"
    by (simp add: GenerateToken_def SignedString_def Let_def)
  then have t': "SignedString L HS256 (newClaims j (t1, t2, t3) uuid userID email role) (secretKey j) = Inr tok"
    by (simp add: GenerateToken_def)
  have "ValidateToken L j now tok = Inr (newClaims j (t1, t2, t3) uuid userID email role)"
    using w by (simp add: ValidateToken_signed [OF s _ t'] Validate_newClaims)
  with t show ?thesis by blast
qed

lemma serialises_testLib:
  "fieldsUnmarshal (fieldsMarshal c) = Some c \<Longrightarrow> serialises testLib m key c"
  by (simp add: serialises_def testLib_def Let_def hexDecode_hexEncode hexEncode_no_dot)

lemma sampleManager_eq:
  "sampleManager = \<lparr>secretKey = ''default-secret-key'', tokenDuration = 86400000000000\<rparr>"
  by (simp add: sampleManager_def NewJWTManager_def noEnv_def Hour_def Minute_def Second_def)

lemma sampleClaims_eq:
  "sampleClaims =
     \<lparr>Issuer = ''agri-management-api'', Subject = ''u-1'', Audience = [],
      ExpiresAt = Some 1700086400000000000, NotBefore = Some 1700000000000000000,
      IssuedAt = Some 1700000000000000000, ID = ''7c9e6679-7425-40de-944b-e07fc1f90ae7'',
      UserID = ''u-1'', Email = ''alice@example.com'', Role = ''farmer''\<rparr>"
  by (simp add: sampleClaims_def sampleClock_def sampleManager_eq newClaims_def NewNumericDate_def
      Truncate_def Second_def)

lemma sampleClaims_roundtrip: "fieldsUnmarshal (fieldsMarshal sampleClaims) = Some sampleClaims"
  unfolding sampleClaims_eq by code_simp

lemma sampleToken_generated:
  "GenerateToken testLib sampleManager sampleClock ''7c9e6679-7425-40de-944b-e07fc1f90ae7''
     ''u-1'' ''alice@example.com'' ''farmer'' = Inr sampleToken"
  by (simp add: sampleToken_def GenerateToken_def SignedString_def Let_def)

lemma Validate_withinValidity: "Validate c now \<longleftrightarrow> withinValidity c now"
  by (auto simp: Validate_def verifyExpiresAt_def verifyNotBefore_def withinValidity_def
      split: option.splits)

lemma ValidateToken_Inr_iff:
  "ValidateToken L j now tok = Inr c \<longleftrightarrow>
     parsedClaims L tok = Some c \<and> signatureVerifies L (secretKey j) tok \<and> withinValidity c now"
proof (cases "ParseUnverified L tok")
  case (Inl e)
  then show ?thesis
    by (simp add: ValidateToken_def ParseWithClaims_def parsedClaims_def signatureVerifies_def)
next
  case (Inr r)
  obtain token parts where r: "r = (token, parts)" by (cases r)
  show ?thesis
  proof (cases "DecodeSegment L (parts ! 2)")
    case None
    then show ?thesis
      using Inr r
      by (simp add: ValidateToken_def ParseWithClaims_def parsedClaims_def signatureVerifies_def)
  next
    case (Some sig)
    then show ?thesis
      using Inr r
      by (auto simp: ValidateToken_def ParseWithClaims_def parsedClaims_def signatureVerifies_def
          keyFunc_def Verify_def Validate_withinValidity)
  qed
qed

lemma ValidateToken_isl: "isl (ValidateToken L j now tok) \<longleftrightarrow> (\<forall>c. ValidateToken L j now tok \<noteq> Inr c)"
  by (cases "ValidateToken L j now tok") auto

lemma sampleToken_parsed:
  "parsedClaims testLib sampleToken = Some sampleClaims
   \<and> signatureVerifies testLib (secretKey sampleManager) sampleToken"
proof -
  have s: "serialises testLib HS256 (secretKey sampleManager) sampleClaims"
    using sampleClaims_roundtrip by (rule serialises_testLib)
  have t: "SignedString testLib HS256 sampleClaims (secretKey sampleManager) = Inr sampleToken"
    using sampleToken_generated by (simp add: GenerateToken_def sampleClaims_def)
  have d: "DecodeSegment testLib (EncodeSegment testLib x) = Some x" for x
    by (simp add: testLib_def hexDecode_hexEncode)
  show ?thesis
    by (simp add: parsedClaims_def signatureVerifies_def ParseUnverified_signed [OF s _ t] d Verify_def)
qed

lemma padKey_zero: "length k < n \<Longrightarrow> padKey n (k @ [CHR 0x00]) = padKey n k"
proof -
  assume l: "length k < n"
  then have "n - length k = Suc (n - length (k @ [CHR 0x00]))" by simp
  then have "replicate (n - length k) (CHR 0x00) = CHR 0x00 # replicate (n - length (k @ [CHR 0x00])) (CHR 0x00)"
    by (simp only: replicate_Suc)
  then show ?thesis by (simp add: padKey_def)
qed

lemma HMAC_zero_padded_key:
  "length k < blockSize m \<Longrightarrow> HMAC L m (k @ [CHR 0x00]) msg = HMAC L m k msg"
  by (simp add: HMAC_def Let_def padKey_zero)

lemma not_signatureVerifies_isl:
  "\<not> signatureVerifies L (secretKey j) tok \<Longrightarrow> isl (ValidateToken L j now tok)"
  by (simp add: ValidateToken_isl ValidateToken_Inr_iff)

lemma headerAlg_not_HMAC:
  assumes "headerAlg L tok = Some a" "a \<notin> {''HS256'', ''HS384'', ''HS512''}"
  shows "\<not> signatureVerifies L secret tok"
proof
  assume sv: "signatureVerifies L secret tok"
  then obtain token parts where p: "ParseUnverified L tok = Inr (token, parts)"
    by (cases "ParseUnverified L tok") (auto simp: signatureVerifies_def)
  with sv have hm: "isHMAC (Method token)"
    by (auto simp: signatureVerifies_def Verify_def split: option.splits)
  from p assms(1) have "GetSigningMethod a = Some (Method token)"
    by (auto simp: ParseUnverified_def headerAlg_def Let_def split: if_splits option.splits)
  with hm have "a \<in> {''HS256'', ''HS384'', ''HS512''}"
    using GetSigningMethod_HMAC_iff [of a] by blast
  with assms(2) show False by simp
qed

lemma xorByte_a_d: "xorByte 0x5c (CHR ''a'') \<noteq> xorByte 0x5c (CHR ''d'')"
  by code_simp

lemma foreign_mac:
  "HMAC testLib HS256 ''another-secret'' (SigningString testLib HS256 sampleClaims)
     \<noteq> HMAC testLib HS256 (secretKey sampleManager) (SigningString testLib HS256 sampleClaims)"
  using xorByte_a_d by (simp add: sampleManager_eq HMAC_def testLib_def padKey_def)

lemma unsignedToken_alg: "headerAlg testLib unsignedToken = Some ''none''"
proof -
  have "Split (CHR ''.'') unsignedToken = [hexEncode ''none'', hexEncode (fieldsMarshal sampleClaims), []]"
    using Split_three [of "CHR ''.''" "hexEncode ''none''" "hexEncode (fieldsMarshal sampleClaims)" "[]"]
    by (simp add: unsignedToken_def testLib_def hexEncode_no_dot del: hexEncode.simps)
  then show ?thesis
    by (simp add: headerAlg_def testLib_def hexDecode_hexEncode del: hexEncode.simps)
qed

lemma sampleClaims_serialises: "serialises testLib m key sampleClaims"
  using sampleClaims_roundtrip by (rule serialises_testLib)

lemma foreignToken_signed:
  "SignedString testLib HS256 sampleClaims ''another-secret'' = Inr foreignToken"
  by (simp add: foreignToken_def SignedString_def Let_def)

lemma paddedKeyToken_signed:
  "SignedString testLib HS256 sampleClaims (''default-secret-key'' @ [CHR 0x00]) = Inr paddedKeyToken"
  by (simp add: paddedKeyToken_def SignedString_def Let_def)

lemma RefreshToken_still_valid:
  assumes "ValidateToken L j tv tok = Inr c" "ExpiresAt c = Some e" "e - tu > 15 * Minute"
  shows "RefreshToken L j tv tu clock uuid tok = Inl ErrTokenStillValid"
  using assms by (simp add: RefreshToken_def)

lemma RefreshToken_reissue:
  assumes "ValidateToken L j tv tok = Inr c" "ExpiresAt c = Some e" "e - tu \<le> 15 * Minute"
  shows "RefreshToken L j tv tu clock uuid tok
           = GenerateToken L j clock uuid (UserID c) (Email c) (Role c)"
  using assms by (simp add: RefreshToken_def)

lemma sampleToken_valid:
  "1700000000000000000 \<le> now \<Longrightarrow> now < 1700086400000000000
   \<Longrightarrow> ValidateToken testLib sampleManager now sampleToken = Inr sampleClaims"
  using sampleToken_parsed
  by (simp add: ValidateToken_Inr_iff withinValidity_def sampleClaims_eq)

lemma renewedClaims_roundtrip:
  "fieldsUnmarshal (fieldsMarshal
     (newClaims sampleManager (1700086000000000010, 1700086000000000011, 1700086000000000012)
        ''f47ac10b-58cc-4372-a567-0e02b2c3d479'' ''u-1'' ''alice@example.com'' ''farmer''))
   = Some (newClaims sampleManager (1700086000000000010, 1700086000000000011, 1700086000000000012)
        ''f47ac10b-58cc-4372-a567-0e02b2c3d479'' ''u-1'' ''alice@example.com'' ''farmer'')"
  unfolding sampleManager_eq newClaims_def NewNumericDate_def Truncate_def Second_def
  by code_simp

lemma hexEncode_letters: "c \<in> set (hexEncode s) \<Longrightarrow> (97::nat) \<le> of_char c"
proof (induction s)
  case Nil
  then show ?case by simp
next
  case (Cons x xs)
  have "(97::nat) \<le> of_char (nibble k)" if "k < 16" for k
    using that by (simp add: nibble_def)
  then have "(97::nat) \<le> of_char (nibble (of_char x div 16))" "(97::nat) \<le> of_char (nibble (of_char x mod 16))"
    by (simp_all add: of_char_div16)
  with Cons show ?case by auto
qed

lemma hexEncode_no_space: "CHR '' '' \<notin> set (hexEncode s)"
  using hexEncode_letters [of "CHR '' ''" s] by auto

lemma sampleToken_no_space: "CHR '' '' \<notin> set sampleToken"
  by (simp add: sampleToken_def GenerateToken_def SignedString_def SigningString_def Let_def
      testLib_def hexEncode_no_space del: hexEncode.simps)

lemma Split_Bearer:
  "CHR '' '' \<notin> set t \<Longrightarrow> Split (CHR '' '') (''Bearer '' @ t) = [''Bearer'', t]"
  using Split_append [of "CHR '' ''" "''Bearer''" t] by (simp add: Split_nosep)

lemma Auth_missing:
  "GetHeader c ''Authorization'' = []
   \<Longrightarrow> Auth L getenv now next c
         = Abort (JSON c StatusUnauthorized (ErrorH ''MISSING_TOKEN'' ''Authorization token gerekli''))"
  by (simp add: Auth_def)

lemma list_of_length_2: "length xs = 2 \<Longrightarrow> xs = [xs ! 0, xs ! 1]"
proof -
  assume l: "length xs = 2"
  then obtain x ys where xs: "xs = x # ys" by (cases xs) auto
  with l obtain y zs where ys: "ys = y # zs" by (cases ys) auto
  with l xs have "zs = []" by simp
  with xs ys show ?thesis by simp
qed

lemma Auth_format:
  assumes ne: "GetHeader c ''Authorization'' \<noteq> []"
    and nb: "\<forall>t. Split (CHR '' '') (GetHeader c ''Authorization'') \<noteq> [''Bearer'', t]"
  shows "\<exists>msg. \<forall>next. Auth L getenv now next c
           = Abort (JSON c StatusUnauthorized (ErrorH ''INVALID_TOKEN_FORMAT'' msg))"
proof -
  define ps where "ps = Split (CHR '' '') (GetHeader c ''Authorization'')"
  have cond: "length ps \<noteq> 2 \<or> ps ! 0 \<noteq> ''Bearer''"
  proof (rule ccontr)
    assume "\<not> (length ps \<noteq> 2 \<or> ps ! 0 \<noteq> ''Bearer'')"
    then have l: "length ps = 2" and b: "ps ! 0 = ''Bearer''" by simp_all
    from list_of_length_2 [OF l] b have "ps = [''Bearer'', ps ! 1]" by simp
    with nb show False unfolding ps_def by blast
  qed
  have "Auth L getenv now next c
          = Abort (JSON c StatusUnauthorized
              (ErrorH ''INVALID_TOKEN_FORMAT''
                 (''Ge'' @ [CHR 0xC3, CHR 0xA7] @ ''ersiz token format'' @ [CHR 0xC4, CHR 0xB1])))"
    for "next"
    unfolding Auth_def Let_def using ne cond unfolding ps_def by (simp only: if_False if_True)
  then show ?thesis by blast
qed

lemma Auth_invalid:
  assumes "Split (CHR '' '') (GetHeader c ''Authorization'') = [''Bearer'', t]"
    and "isl (ValidateToken L (NewJWTManager L getenv) now t)"
  shows "\<exists>msg. \<forall>next. Auth L getenv now next c
           = Abort (JSON c StatusUnauthorized (ErrorH ''INVALID_TOKEN'' msg))"
proof -
  from assms(1) have ne: "GetHeader c ''Authorization'' \<noteq> []"
    by (cases "GetHeader c ''Authorization''") auto
  from assms(2) obtain e where "ValidateToken L (NewJWTManager L getenv) now t = Inl e"
    by (cases "ValidateToken L (NewJWTManager L getenv) now t") auto
  then show ?thesis using assms(1) ne by (auto simp: Auth_def Let_def)
qed

lemma Auth_valid:
  assumes "Split (CHR '' '') (GetHeader c ''Authorization'') = [''Bearer'', t]"
    and "ValidateToken L (NewJWTManager L getenv) now t = Inr claims"
  shows "Auth L getenv now next c
           = next (c\<lparr>Keys := (Keys c)(''user_id'' \<mapsto> UserID claims, ''user_email'' \<mapsto> Email claims,
                                      ''user_role'' \<mapsto> Role claims)\<rparr>)"
proof -
  from assms(1) have ne: "GetHeader c ''Authorization'' \<noteq> []"
    by (cases "GetHeader c ''Authorization''") auto
  show ?thesis using assms ne by (simp add: Auth_def Let_def Set_def)
qed

section \<open>Properties of the transaction handlers\<close>

lemma selectTransaction_ownRows:
  "selectTransaction (ownRows u db) tid u = selectTransaction db tid u"
proof -
  have "filter (\<lambda>r. t_id r = tid \<and> t_user_id r = u) (filter (\<lambda>r. t_user_id r = u) rows)
          = filter (\<lambda>r. t_id r = tid \<and> t_user_id r = u) rows"
    for rows :: "transactions_row list"
    by (induction rows) auto
  note f = this
  have t: "transactions (ownRows u db) = filter (\<lambda>r. t_user_id r = u) (transactions db)"
    by (simp add: ownRows_def)
  have a: "available (ownRows u db) = available db"
    by (simp add: ownRows_def)
  show ?thesis by (simp only: selectTransaction_def t a f)
qed

lemma selectTransaction_owner:
  "selectTransaction db tid u = Inr t \<Longrightarrow> tUserID t = u \<and> tID t = tid"
proof -
  assume s: "selectTransaction db tid u = Inr t"
  then obtain r rs where f: "filter (\<lambda>r. t_id r = tid \<and> t_user_id r = u) (transactions db) = r # rs"
    and sc: "scanTransaction r = Inr t"
    by (auto simp: selectTransaction_def split: if_splits list.splits)
  from f have "r \<in> set (filter (\<lambda>r. t_id r = tid \<and> t_user_id r = u) (transactions db))" by simp
  then have "t_id r = tid" "t_user_id r = u" by simp_all
  moreover from sc have "tUserID t = t_user_id r" "tID t = t_id r"
    by (auto simp: scanTransaction_def split: option.splits)
  ultimately show ?thesis by simp
qed

lemma GetTransaction_ownRows:
  "GetUserID c = Some u \<Longrightarrow> GetTransaction (ownRows u db) now c = GetTransaction db now c"
  by (simp add: GetTransaction_def Let_def selectTransaction_ownRows)

lemma returned_append: "returned (ws @ vs) = returned ws @ returned vs"
  by (induction ws rule: returned.induct) (auto split: option.splits data.splits)

lemma returned_SuccessResponse:
  "returned (Written (SuccessResponse c now d m))
     = returned (Written c) @ (case d of Some (TransactionData t) \<Rightarrow>
                                  (if Keys c ''request_id'' = None then [] else [t]) | _ \<Rightarrow> [])"
  by (auto simp: SuccessResponse_def JSON_def returned_append split: option.splits data.splits)

lemma returned_ErrorResponse:
  "returned (Written (ErrorResponse c now st code m d)) = returned (Written c)"
  by (auto simp: ErrorResponse_def JSON_def returned_append split: option.splits)

lemma GetTransaction_returned:
  assumes "GetUserID c = Some u" and "t \<in> set (returned (Written (GetTransaction db now c)))"
  shows "t \<in> set (returned (Written c)) \<or> tUserID t = u"
proof (cases "selectTransaction db (Param c ''id'') u")
  case (Inl e)
  then show ?thesis using assms
    by (auto simp: GetTransaction_def Let_def returned_ErrorResponse split: if_splits)
next
  case (Inr t')
  from selectTransaction_owner [OF this] have "tUserID t' = u" by simp
  then show ?thesis using assms Inr
    by (auto simp: GetTransaction_def Let_def returned_ErrorResponse returned_SuccessResponse
        split: if_splits)
qed

lemma filter_map_commute:
  assumes "\<And>r. P (g r) = P r"
  shows "filter P (map g rows) = map g (filter P rows)"
  using assms by (induction rows) auto

lemma filter_map_untouched:
  assumes "\<And>r. P r \<Longrightarrow> g r = r" and "\<And>r. P (g r) = P r"
  shows "filter P (map g rows) = filter P rows"
  using assms by (induction rows) auto

lemma filter_filter_untouched:
  assumes "\<And>r. P r \<Longrightarrow> Q r"
  shows "filter P (filter Q rows) = filter P rows"
  using assms by (induction rows) auto

lemma updateTransaction_foreign:
  assumes "updateTransaction db now req tid u = Inr db'"
  shows "foreignRows u db' = foreignRows u db \<and> users db' = users db"
proof -
  define g :: "transactions_row \<Rightarrow> transactions_row" where "g = (\<lambda>r. if t_id r = tid \<and> t_user_id r = u
                            then r\<lparr>t_type := tType req, t_category := tCategory req,
                                   t_description := tDescription req, t_amount := tAmount req,
                                   t_currency := Some (tCurrency req), t_date := tDate req,
                                   t_status := Some (tStatus req),
                                   t_payment_method := Some (tPaymentMethod req),
                                   t_receipt := Some (tReceipt req), t_notes := Some (tNotes req),
                                   t_updated_at := Some now\<rparr>
                            else r)"
  from assms have d: "db' = db\<lparr>transactions := map g (transactions db)\<rparr>"
    by (simp add: updateTransaction_def g_def split: if_splits)
  have "filter (\<lambda>r. t_user_id r \<noteq> u) (map g (transactions db))
          = filter (\<lambda>r. t_user_id r \<noteq> u) (transactions db)"
    by (rule filter_map_untouched) (simp_all add: g_def)
  then show ?thesis by (simp add: d foreignRows_def)
qed

lemma updateTransaction_ownRows:
  "updateTransaction (ownRows u db) now req tid u
     = (case updateTransaction db now req tid u of Inl e \<Rightarrow> Inl e | Inr db' \<Rightarrow> Inr (ownRows u db'))"
proof -
  define g :: "transactions_row \<Rightarrow> transactions_row" where "g = (\<lambda>r. if t_id r = tid \<and> t_user_id r = u
                            then r\<lparr>t_type := tType req, t_category := tCategory req,
                                   t_description := tDescription req, t_amount := tAmount req,
                                   t_currency := Some (tCurrency req), t_date := tDate req,
                                   t_status := Some (tStatus req),
                                   t_payment_method := Some (tPaymentMethod req),
                                   t_receipt := Some (tReceipt req), t_notes := Some (tNotes req),
                                   t_updated_at := Some now\<rparr>
                            else r)"
  have u: "updateTransaction d now req tid u
             = (if \<not> available d then Inl ErrDriver else Inr (d\<lparr>transactions := map g (transactions d)\<rparr>))"
    for d
    by (simp add: updateTransaction_def g_def)
  have c: "filter (\<lambda>r. t_user_id r = u) (map g rows) = map g (filter (\<lambda>r. t_user_id r = u) rows)"
    for rows :: "transactions_row list"
    by (rule filter_map_commute) (simp add: g_def)
  show ?thesis
    by (simp add: u ownRows_def c)
qed

lemma deleteTransaction_foreign:
  assumes "deleteTransaction db tid u = Inr (db', n)"
  shows "foreignRows u db' = foreignRows u db \<and> users db' = users db"
proof -
  from assms have d: "db' = db\<lparr>transactions :=
      filter (\<lambda>r. \<not> (t_id r = tid \<and> t_user_id r = u)) (transactions db)\<rparr>"
    by (auto simp: deleteTransaction_def split: if_splits)
  have f: "filter (\<lambda>r. t_user_id r \<noteq> u) (filter (\<lambda>r. \<not> (t_id r = tid \<and> t_user_id r = u)) (transactions db))
          = filter (\<lambda>r. t_user_id r \<noteq> u) (transactions db)"
    by (rule filter_filter_untouched) simp
  have t: "transactions db' = filter (\<lambda>r. \<not> (t_id r = tid \<and> t_user_id r = u)) (transactions db)"
    and us: "users db' = users db"
    by (simp_all add: d)
  show ?thesis by (simp only: foreignRows_def t us f simp_thms)
qed

lemma deleteTransaction_ownRows:
  "deleteTransaction (ownRows u db) tid u
     = (case deleteTransaction db tid u of
          Inl e \<Rightarrow> Inl e
        | Inr (db', n) \<Rightarrow> Inr (ownRows u db', n))"
proof -
  have t: "transactions (ownRows u db) = filter (\<lambda>r. t_user_id r = u) (transactions db)"
    and a: "available (ownRows u db) = available db"
    by (simp_all add: ownRows_def)
  have f1: "filter (\<lambda>r. \<not> (t_id r = tid \<and> t_user_id r = u)) (filter (\<lambda>r. t_user_id r = u) rows)
          = filter (\<lambda>r. t_user_id r = u) (filter (\<lambda>r. \<not> (t_id r = tid \<and> t_user_id r = u)) rows)"
    for rows :: "transactions_row list"
    by (induction rows) auto
  have f2: "length (filter (\<lambda>r. t_id r = tid \<and> t_user_id r = u) (filter (\<lambda>r. t_user_id r = u) rows))
          = length (filter (\<lambda>r. t_id r = tid \<and> t_user_id r = u) rows)"
    for rows :: "transactions_row list"
    by (induction rows) auto
  show ?thesis
  proof (cases "available db")
    case False
    then show ?thesis by (simp add: deleteTransaction_def a)
  next
    case True
    have "deleteTransaction (ownRows u db) tid u
            = Inr ((ownRows u db)\<lparr>transactions :=
                      filter (\<lambda>r. \<not> (t_id r = tid \<and> t_user_id r = u)) (transactions (ownRows u db))\<rparr>,
                   length (filter (\<lambda>r. t_id r = tid \<and> t_user_id r = u) (transactions (ownRows u db))))"
      using True by (simp only: deleteTransaction_def a if_False simp_thms)
    also have "\<dots> = Inr (ownRows u (db\<lparr>transactions :=
                      filter (\<lambda>r. \<not> (t_id r = tid \<and> t_user_id r = u)) (transactions db)\<rparr>),
                   length (filter (\<lambda>r. t_id r = tid \<and> t_user_id r = u) (transactions db)))"
      unfolding t f1 f2 by (simp add: ownRows_def)
    finally show ?thesis using True by (simp add: deleteTransaction_def)
  qed
qed

lemma UpdateTransaction_ownRows:
  assumes "GetUserID c = Some u"
  shows "UpdateTransaction (ownRows u db) bound dbNow now c
           = (ownRows u (fst (UpdateTransaction db bound dbNow now c)),
              snd (UpdateTransaction db bound dbNow now c))"
proof (cases "IsEmptyString (Param c ''id'')")
  case True
  then show ?thesis using assms by (simp add: UpdateTransaction_def Let_def)
next
  case False
  show ?thesis
  proof (cases bound)
    case (Inl err)
    then show ?thesis using assms False by (simp add: UpdateTransaction_def Let_def)
  next
    case (Inr req)
    show ?thesis
    proof (cases "updateTransaction db dbNow req (Param c ''id'') u")
      case (Inl e)
      then show ?thesis
        using assms False Inr
        by (simp add: UpdateTransaction_def Let_def updateTransaction_ownRows)
    next
      case (Inr db')
      then show ?thesis
        using assms False \<open>bound = Inr req\<close>
        by (simp add: UpdateTransaction_def Let_def updateTransaction_ownRows
            GetTransaction_ownRows)
    qed
  qed
qed

lemma UpdateTransaction_foreign:
  assumes "GetUserID c = Some u"
  shows "foreignRows u (fst (UpdateTransaction db bound dbNow now c)) = foreignRows u db
       \<and> users (fst (UpdateTransaction db bound dbNow now c)) = users db"
proof (cases "\<exists>req db'. bound = Inr req \<and> \<not> IsEmptyString (Param c ''id'')
                \<and> updateTransaction db dbNow req (Param c ''id'') u = Inr db'")
  case True
  then obtain req db' where b: "bound = Inr req" and e: "\<not> IsEmptyString (Param c ''id'')"
    and u: "updateTransaction db dbNow req (Param c ''id'') u = Inr db'"
    by blast
  then have "fst (UpdateTransaction db bound dbNow now c) = db'"
    using assms by (simp add: UpdateTransaction_def Let_def)
  with updateTransaction_foreign [OF u] show ?thesis by simp
next
  case False
  then have "fst (UpdateTransaction db bound dbNow now c) = db"
    using assms
    by (auto simp: UpdateTransaction_def Let_def split: sum.splits)
  then show ?thesis by simp
qed

lemma UpdateTransaction_returned:
  assumes "GetUserID c = Some u"
    and "t \<in> set (returned (Written (snd (UpdateTransaction db bound dbNow now c))))"
  shows "t \<in> set (returned (Written c)) \<or> tUserID t = u"
proof (cases "\<exists>req db'. bound = Inr req \<and> \<not> IsEmptyString (Param c ''id'')
                \<and> updateTransaction db dbNow req (Param c ''id'') u = Inr db'")
  case True
  then obtain req db' where b: "bound = Inr req" and e: "\<not> IsEmptyString (Param c ''id'')"
    and u: "updateTransaction db dbNow req (Param c ''id'') u = Inr db'"
    by blast
  then have "snd (UpdateTransaction db bound dbNow now c) = GetTransaction db' now c"
    using assms(1) by (simp add: UpdateTransaction_def Let_def)
  with assms GetTransaction_returned [of c u t db' now] show ?thesis by simp
next
  case False
  then have "returned (Written (snd (UpdateTransaction db bound dbNow now c))) = returned (Written c)"
    using assms(1)
    by (auto simp: UpdateTransaction_def Let_def returned_ErrorResponse split: sum.splits)
  with assms(2) show ?thesis by simp
qed

lemma DeleteTransaction_ownRows:
  assumes "GetUserID c = Some u"
  shows "DeleteTransaction (ownRows u db) now c
           = (ownRows u (fst (DeleteTransaction db now c)), snd (DeleteTransaction db now c))"
proof (cases "IsEmptyString (Param c ''id'')")
  case True
  then show ?thesis using assms by (simp add: DeleteTransaction_def Let_def)
next
  case False
  show ?thesis
  proof (cases "deleteTransaction db (Param c ''id'') u")
    case (Inl e)
    then show ?thesis
      using assms False by (simp add: DeleteTransaction_def Let_def deleteTransaction_ownRows)
  next
    case (Inr r)
    obtain db' n where r: "r = (db', n)" by (cases r)
    show ?thesis
      using assms False Inr r by (simp add: DeleteTransaction_def Let_def deleteTransaction_ownRows)
  qed
qed

lemma DeleteTransaction_foreign:
  assumes "GetUserID c = Some u"
  shows "foreignRows u (fst (DeleteTransaction db now c)) = foreignRows u db
       \<and> users (fst (DeleteTransaction db now c)) = users db"
proof (cases "\<not> IsEmptyString (Param c ''id'') \<and> \<not> isl (deleteTransaction db (Param c ''id'') u)")
  case True
  then obtain db' n where d: "deleteTransaction db (Param c ''id'') u = Inr (db', n)"
    by (cases "deleteTransaction db (Param c ''id'') u") auto
  with True have "fst (DeleteTransaction db now c) = db'"
    using assms by (simp add: DeleteTransaction_def Let_def)
  with deleteTransaction_foreign [OF d] show ?thesis by simp
next
  case False
  then have "fst (DeleteTransaction db now c) = db"
    using assms by (auto simp: DeleteTransaction_def Let_def split: sum.splits)
  then show ?thesis by simp
qed

lemma DeleteTransaction_returned:
  assumes "GetUserID c = Some u"
  shows "returned (Written (snd (DeleteTransaction db now c))) = returned (Written c)"
  using assms
  by (auto simp: DeleteTransaction_def Let_def returned_ErrorResponse returned_SuccessResponse
      split: sum.splits prod.splits)

section \<open>Properties of the password helpers\<close>

lemma dotUnpad_dotPad: "dotUnpad (dotPad s) = Some s"
proof -
  have n: "(3 * (length s + (length s + 2) div 3)) div 4 = length s" by presburger
  show ?thesis by (simp add: dotUnpad_def dotPad_def Let_def n)
qed

lemma HashPassword_eq:
  assumes "length p \<le> 72" and "Base64Decode L (Base64Encode L r) = Some r"
  shows "HashPassword L (Some r) p
           = (Hash' \<lparr>hash = Base64Encode L (take 23 (Blowfish L 14 r (keyStream (p @ [CHR 0x00])))),
                     salt = Base64Encode L r, cost = 14, major = CHR ''2'', minor = CHR ''a''\<rparr>,
              None)"
  using assms
  by (simp add: HashPassword_def GenerateFromPassword_def newFromPassword_def bcrypt_def
      checkCost_def MinCost_def MaxCost_def Let_def)

section \<open>Properties of the registration scenario\<close>

lemma GenerateToken_Inr: "\<exists>t. GenerateToken L j clock uuid userID email role = Inr t"
  by (simp add: GenerateToken_def SignedString_def Let_def)

lemma registerCall_written:
  "\<exists>r a. Written registerCall = [(StatusOK, Envelope r)] \<and> Error r = None
         \<and> Data r = Some (AuthData a) \<and> respToken a = sampleToken"
proof -
  define c1 :: "data Context" where "c1 = Set (request Map.empty) ''request_id'' ''req-1''"
  have rc: "registerCall = snd (Register testLib noEnv emptyDB (Inr aliceRequest) sampleEntropy c1)"
    by (simp add: registerCall_def RequestID'_def GetHeader_def request_def c1_def)
  have k: "Keys c1 ''request_id'' = Some ''req-1''" and w: "Written c1 = []"
    by (simp_all add: c1_def Set_def request_def)
  have sel: "isl (selectUserIDByEmail emptyDB ''alice@example.com'')"
    by (simp add: selectUserIDByEmail_def emptyDB_def)
  have "Base64Decode testLib (Base64Encode testLib ''0123456789abcdef'') = Some ''0123456789abcdef''"
    by (simp add: testLib_def dotUnpad_dotPad)
  from HashPassword_eq [OF _ this, of "''secret123''"]
  obtain h where hp: "HashPassword testLib (Some ''0123456789abcdef'') ''secret123'' = (h, None)"
    by simp
  obtain db' where ins: "insertUser emptyDB 1700000000000000000 ''u-1'' ''Alice''
      ''alice@example.com'' h ''Green Acres'' ''Konya'' = Inr db'"
    by (simp add: insertUser_def emptyDB_def)
  have g1: "GenerateToken testLib (NewJWTManager testLib noEnv) sampleClock
      ''7c9e6679-7425-40de-944b-e07fc1f90ae7'' ''u-1'' ''alice@example.com'' ''farmer'' = Inr sampleToken"
    using sampleToken_generated by (simp add: sampleManager_def)
  obtain t2 where g2: "GenerateToken testLib (NewJWTManager testLib noEnv)
      (1700000000123456792, 1700000000123456793, 1700000000123456794)
      ''f47ac10b-58cc-4372-a567-0e02b2c3d479'' ''u-1'' ''alice@example.com'' ''farmer'' = Inr t2"
    using GenerateToken_Inr by blast
  have "Written registerCall =
          [(StatusOK, Envelope \<lparr>Success = True,
              Data = Some (AuthData \<lparr>respUser = \<lparr>ID' = ''u-1'', Name = ''Alice'',
                                       Email' = ''alice@example.com'', Password = [], Avatar = [],
                                       Role' = ''farmer'', FarmName = ''Green Acres'',
                                       Location = ''Konya'', IsVerified = False,
                                       CreatedAt = zeroTime, UpdatedAt = zeroTime\<rparr>,
                                     respToken = sampleToken, respRefreshToken = t2\<rparr>),
              ResponseMessage = msgUserCreated, Error = None,
              Meta = Some \<lparr>Timestamp = 1700000000123456795, Version = ''1.0'',
                            RequestID = ''req-1''\<rparr>\<rparr>)]"
    unfolding rc
    by (simp add: Register_def aliceRequest_def sampleEntropy_def sel hp ins g1 g2 Let_def
        SuccessResponse_def k w JSON_def)
  then show ?thesis by simp
qed

lemma protectedCall_eq:
  "headers ''X-Request-ID'' = None \<Longrightarrow> protectedCall headers
     = Auth testLib noEnv 1700000005000000000 (Logout 1700000005000000001)
         ((request headers)\<lparr>Keys := [''request_id'' \<mapsto> ''req-2'']\<rparr>)"
  by (simp add: protectedCall_def RequestID'_def GetHeader_def request_def Set_def Let_def)

lemma protectedCall_valid:
  "codes (Written (protectedCall [''Authorization'' \<mapsto> ''Bearer '' @ sampleToken])) = [(200, [])]
   \<and> GetUserID (protectedCall [''Authorization'' \<mapsto> ''Bearer '' @ sampleToken]) = Some ''u-1''"
proof -
  let ?c = "(request [''Authorization'' \<mapsto> ''Bearer '' @ sampleToken])
              \<lparr>Keys := [''request_id'' \<mapsto> ''req-2'']\<rparr> :: data Context"
  have s: "Split (CHR '' '') (GetHeader ?c ''Authorization'') = [''Bearer'', sampleToken]"
    using Split_Bearer [OF sampleToken_no_space] by (simp add: GetHeader_def request_def)
  have v: "ValidateToken testLib (NewJWTManager testLib noEnv) 1700000005000000000 sampleToken
             = Inr sampleClaims"
    using sampleToken_valid [of 1700000005000000000] by (simp add: sampleManager_def)
  have f: "UserID sampleClaims = ''u-1''" by (simp add: sampleClaims_eq)
  have e: "protectedCall [''Authorization'' \<mapsto> ''Bearer '' @ sampleToken]
             = Auth testLib noEnv 1700000005000000000 (Logout 1700000005000000001) ?c"
    by (rule protectedCall_eq) simp
  show ?thesis
    unfolding e Auth_valid [OF s v]
    by (simp add: Logout_def SuccessResponse_def JSON_def request_def GetUserID_def f StatusOK_def)
qed

lemma protectedCall_missing:
  "codes (Written (protectedCall Map.empty)) = [(401, ''MISSING_TOKEN'')]"
proof -
  let ?c = "(request Map.empty)\<lparr>Keys := [''request_id'' \<mapsto> ''req-2'']\<rparr> :: data Context"
  have "GetHeader ?c ''Authorization'' = []"
    by (simp add: GetHeader_def request_def)
  moreover have "protectedCall Map.empty
             = Auth testLib noEnv 1700000005000000000 (Logout 1700000005000000001) ?c"
    by (rule protectedCall_eq) simp
  ultimately show ?thesis
    using Auth_missing [of ?c testLib noEnv 1700000005000000000 "Logout 1700000005000000001"]
    by (simp add: Abort_def JSON_def request_def StatusUnauthorized_def)
qed

lemma protectedCall_garbage:
  "codes (Written (protectedCall [''Authorization'' \<mapsto> ''Bearer garbage''])) = [(401, ''INVALID_TOKEN'')]"
proof -
  let ?c = "(request [''Authorization'' \<mapsto> ''Bearer garbage''])
              \<lparr>Keys := [''request_id'' \<mapsto> ''req-2'']\<rparr> :: data Context"
  have s: "Split (CHR '' '') (GetHeader ?c ''Authorization'') = [''Bearer'', ''garbage'']"
    by (simp add: GetHeader_def request_def)
  have v: "isl (ValidateToken testLib (NewJWTManager testLib noEnv) 1700000005000000000 ''garbage'')"
    by (simp add: ValidateToken_def ParseWithClaims_def ParseUnverified_def)
  from Auth_invalid [OF s v]
  obtain msg where "Auth testLib noEnv 1700000005000000000 (Logout 1700000005000000001) ?c
                      = Abort (JSON ?c StatusUnauthorized (ErrorH ''INVALID_TOKEN'' msg))"
    by blast
  moreover have "protectedCall [''Authorization'' \<mapsto> ''Bearer garbage'']
             = Auth testLib noEnv 1700000005000000000 (Logout 1700000005000000001) ?c"
    by (rule protectedCall_eq) simp
  ultimately show ?thesis
    by (simp add: Abort_def JSON_def request_def StatusUnauthorized_def)
qed

lemma length_fit: "length (fit n s) = n"
  by (simp add: fit_def)

lemma fit_exact: "length s = n \<Longrightarrow> fit n s = s"
  by (simp add: fit_def)

lemma fit_fit: "fit n (fit n s) = fit n s"
  by (rule fit_exact) (rule length_fit)

lemma twoDigits_14: "twoDigits 14 = ''14''"
  by code_simp

lemma Atoi_14: "Atoi ''14'' = (14, None)"
  by (simp add: Atoi_def isDigit_def)

lemma Hash'_14:
  "Hash' \<lparr>hash = d, salt = s, cost = 14, major = CHR ''2'', minor = CHR ''a''\<rparr>
     = ''$2a$14$'' @ fit 22 s @ fit 31 d"
  by (simp add: Hash'_def twoDigits_14)

lemma newFromHash_Hash':
  "newFromHash (''$2a$14$'' @ fit 22 s @ fit 31 d)
     = Inr \<lparr>hash = fit 31 d, salt = fit 22 s, cost = 14, major = CHR ''2'', minor = CHR ''a''\<rparr>"
  by (simp add: newFromHash_def Let_def Atoi_14 checkCost_def MinCost_def MaxCost_def length_fit)

lemma CheckPassword_hashed:
  assumes a: "Base64Decode L (Base64Encode L r) = Some r"
    and b: "length (Base64Encode L r) = 22"
    and p: "length p \<le> 72"
  shows "CheckPassword L q (fst (HashPassword L (Some r) p))
           = (fit 31 (digest L r q) = fit 31 (digest L r p))"
proof -
  have h: "fst (HashPassword L (Some r) p) = ''$2a$14$'' @ fit 22 (Base64Encode L r) @ fit 31 (digest L r p)"
    by (simp add: HashPassword_eq [OF p a] Hash'_14 digest_def)
  have s: "fit 22 (Base64Encode L r) = Base64Encode L r"
    using b by (rule fit_exact)
  have bq: "bcrypt L q 14 (Base64Encode L r) = Inr (digest L r q)"
    by (simp add: bcrypt_def a digest_def Let_def)
  show ?thesis
    unfolding h
    by (simp add: CheckPassword_def CompareHashAndPassword_def
        newFromHash_Hash' [of "Base64Encode L r" "digest L r p", unfolded s] bq Hash'_14 s
        fit_fit eq_commute [of "fit 31 (digest L r p)"] del: append.simps)
qed

lemma CheckPassword_malformed: "isl (newFromHash h) \<Longrightarrow> \<not> CheckPassword L q h"
  by (cases "newFromHash h") (simp_all add: CheckPassword_def CompareHashAndPassword_def)

lemma keyStream_ab: "keyStream ((''ab'' @ [CHR 0x00] @ ''ab'') @ [CHR 0x00]) = keyStream (''ab'' @ [CHR 0x00])"
  by code_simp

lemma digest_ab: "digest L r (''ab'' @ [CHR 0x00] @ ''ab'') = digest L r ''ab''"
  by (simp only: digest_def keyStream_ab)

lemma testLib_salt:
  "Base64Decode testLib (Base64Encode testLib r) = Some r"
  "length r = 16 \<Longrightarrow> length (Base64Encode testLib r) = 22"
  by (simp_all add: testLib_def dotUnpad_dotPad) (simp add: dotPad_def)

lemma digest_secret:
  "fit 31 (digest testLib ''0123456789abcdef'' ''secret124'')
     \<noteq> fit 31 (digest testLib ''0123456789abcdef'' ''secret123'')"
  by code_simp

section \<open>Claims about the token manager\<close>

text \<open>
  Claim C1.  For every user id, email and role: a token freshly issued for them is
  accepted by ValidateToken at any instant from the last clock reading of the issue up
  to (excluding) its expiry, and the claims returned carry exactly the three inputs.
  The library's decoders are assumed to invert its encoders on the issued token.
\<close>

theorem issue_then_validate:
  assumes "serialises L HS256 (secretKey j) (newClaims j (t1, t2, t3) uuid userID email role)"
    and "t3 \<le> now" and "now < NewNumericDate (t1 + tokenDuration j)"
  shows "\<exists>tok claims. GenerateToken L j (t1, t2, t3) uuid userID email role = Inr tok
           \<and> ValidateToken L j now tok = Inr claims
           \<and> UserID claims = userID \<and> Email claims = email \<and> Role claims = role"
proof -
  have "NewNumericDate t3 \<le> now"
    using NewNumericDate_le [of t3] assms(2) by linarith
  from ValidateToken_generated [OF assms(1) this assms(3)]
  obtain tok where "GenerateToken L j (t1, t2, t3) uuid userID email role = Inr tok"
    and "ValidateToken L j now tok = Inr (newClaims j (t1, t2, t3) uuid userID email role)"
    by blast
  moreover have "UserID (newClaims j (t1, t2, t3) uuid userID email role) = userID"
    "Email (newClaims j (t1, t2, t3) uuid userID email role) = email"
    "Role (newClaims j (t1, t2, t3) uuid userID email role) = role"
    by (simp_all add: newClaims_def)
  ultimately show ?thesis by blast
qed

theorem issue_then_validate_witness:
  "serialises testLib HS256 (secretKey sampleManager)
     (newClaims sampleManager (1700000000123456789, 1700000000123456790, 1700000000123456791)
        ''7c9e6679-7425-40de-944b-e07fc1f90ae7'' ''u-1'' ''alice@example.com'' ''farmer'')
   \<and> (1700000000123456791 :: int) \<le> 1700000005000000000
   \<and> 1700000005000000000 < NewNumericDate (1700000000123456789 + tokenDuration sampleManager)
   \<and> (\<exists>tok claims.
         GenerateToken testLib sampleManager
           (1700000000123456789, 1700000000123456790, 1700000000123456791)
           ''7c9e6679-7425-40de-944b-e07fc1f90ae7'' ''u-1'' ''alice@example.com'' ''farmer'' = Inr tok
         \<and> ValidateToken testLib sampleManager 1700000005000000000 tok = Inr claims
         \<and> UserID claims = ''u-1'' \<and> Email claims = ''alice@example.com''
         \<and> Role claims = ''farmer'')"
proof -
  have h1: "serialises testLib HS256 (secretKey sampleManager)
     (newClaims sampleManager (1700000000123456789, 1700000000123456790, 1700000000123456791)
        ''7c9e6679-7425-40de-944b-e07fc1f90ae7'' ''u-1'' ''alice@example.com'' ''farmer'')"
    using sampleClaims_roundtrip
    by (intro serialises_testLib) (simp add: sampleClaims_def sampleClock_def)
  have h2: "(1700000000123456791 :: int) \<le> 1700000005000000000" by simp
  have h3: "1700000005000000000 < NewNumericDate (1700000000123456789 + tokenDuration sampleManager)"
    by (simp add: sampleManager_eq NewNumericDate_def Truncate_def Second_def)
  from issue_then_validate [OF h1 h2 h3] h1 h2 h3 show ?thesis by blast
qed

text \<open>
  Claim C2 (as amended).  ValidateToken returns the claims of a token exactly when the
  token parses, its signature verifies against the manager's secret and the current
  instant lies in the half-open interval from not-before (included) to expiry
  (excluded), a bound that is absent not constraining; so validation fails at the
  expiry instant and at every later one.
\<close>

theorem validity_window:
  "(ValidateToken L j now tok = Inr c \<longleftrightarrow>
      parsedClaims L tok = Some c \<and> signatureVerifies L (secretKey j) tok \<and> withinValidity c now)
   \<and> (parsedClaims L tok = Some c \<and> ExpiresAt c = Some e \<and> e \<le> now
        \<longrightarrow> isl (ValidateToken L j now tok))"
proof -
  have "isl (ValidateToken L j now tok)"
    if p: "parsedClaims L tok = Some c" and e: "ExpiresAt c = Some e" "e \<le> now"
  proof -
    have "ValidateToken L j now tok \<noteq> Inr c'" for c'
    proof
      assume "ValidateToken L j now tok = Inr c'"
      then have "parsedClaims L tok = Some c'" "withinValidity c' now"
        by (simp_all add: ValidateToken_Inr_iff)
      with p e show False by (simp add: withinValidity_def)
    qed
    then show ?thesis by (simp add: ValidateToken_isl)
  qed
  then show ?thesis by (simp add: ValidateToken_Inr_iff)
qed

theorem validity_window_witness:
  "parsedClaims testLib sampleToken = Some sampleClaims
   \<and> ExpiresAt sampleClaims = Some 1700086400000000000
   \<and> (1700086400000000000 :: int) \<le> 1700086400000000001
   \<and> isl (ValidateToken testLib sampleManager 1700086400000000001 sampleToken)
   \<and> ValidateToken testLib sampleManager 1700086399999999999 sampleToken = Inr sampleClaims"
proof -
  have h1: "parsedClaims testLib sampleToken = Some sampleClaims"
    using sampleToken_parsed by simp
  have h2: "ExpiresAt sampleClaims = Some 1700086400000000000"
    by (simp add: sampleClaims_eq)
  have h3: "(1700086400000000000 :: int) \<le> 1700086400000000001" by simp
  have w: "withinValidity sampleClaims 1700086399999999999"
    by (simp add: withinValidity_def sampleClaims_eq)
  have "isl (ValidateToken testLib sampleManager 1700086400000000001 sampleToken)"
    using validity_window [of testLib sampleManager 1700086400000000001 sampleToken sampleClaims
        1700086400000000000] h1 h2 h3 by blast
  moreover have "ValidateToken testLib sampleManager 1700086399999999999 sampleToken = Inr sampleClaims"
    using validity_window [of testLib sampleManager 1700086399999999999 sampleToken sampleClaims
        1700086400000000000] h1 w sampleToken_parsed by blast
  ultimately show ?thesis using h1 h2 h3 by blast
qed

text \<open>
  The sample token, validated at the very instant of its expiry: the signature
  verifies and the instant lies in the closed interval from not-before to expiry, yet
  validation fails.
\<close>

theorem validity_window_counterexample:
  "signatureVerifies testLib (secretKey sampleManager) sampleToken
   \<and> parsedClaims testLib sampleToken = Some sampleClaims
   \<and> withinClosed sampleClaims 1700086400000000000
   \<and> isl (ValidateToken testLib sampleManager 1700086400000000000 sampleToken)"
proof -
  have "withinClosed sampleClaims 1700086400000000000"
    by (simp add: withinClosed_def sampleClaims_eq)
  moreover have "\<not> withinValidity sampleClaims 1700086400000000000"
    by (simp add: withinValidity_def sampleClaims_eq)
  then have "isl (ValidateToken testLib sampleManager 1700086400000000000 sampleToken)"
    using sampleToken_parsed by (simp add: ValidateToken_isl ValidateToken_Inr_iff)
  ultimately show ?thesis using sampleToken_parsed by blast
qed

text \<open>
  Claim C4 (as amended).  ValidateToken returns an error for every token whose
  signature does not verify against the manager's secret, in particular for a
  well-formed token signed with a secret under which the MAC of its signing input
  differs, and for every token whose header names an algorithm other than HS256, HS384
  or HS512.
\<close>

theorem rejects_bad_signature_or_algorithm:
  "(\<not> signatureVerifies L (secretKey j) tok \<longrightarrow> isl (ValidateToken L j now tok))
   \<and> (headerAlg L tok = Some a \<and> a \<notin> {''HS256'', ''HS384'', ''HS512''}
        \<longrightarrow> isl (ValidateToken L j now tok))
   \<and> (serialises L HS256 key c \<and> SignedString L HS256 c key = Inr tok
        \<and> HMAC L HS256 key (SigningString L HS256 c) \<noteq> HMAC L HS256 (secretKey j) (SigningString L HS256 c)
        \<longrightarrow> ValidateToken L j now tok = Inl ErrTokenSignatureInvalid)"
proof -
  have "ValidateToken L j now tok = Inl ErrTokenSignatureInvalid"
    if "serialises L HS256 key c" "SignedString L HS256 c key = Inr tok"
      "HMAC L HS256 key (SigningString L HS256 c) \<noteq> HMAC L HS256 (secretKey j) (SigningString L HS256 c)"
    using that by (simp add: ValidateToken_signed [OF that(1) _ that(2)])
  then show ?thesis
    using not_signatureVerifies_isl headerAlg_not_HMAC by blast
qed


theorem rejects_bad_signature_or_algorithm_witness:
  "\<not> signatureVerifies testLib (secretKey sampleManager) ''garbage''
   \<and> isl (ValidateToken testLib sampleManager 1700000005000000000 ''garbage'')
   \<and> headerAlg testLib unsignedToken = Some ''none''
   \<and> ''none'' \<notin> {''HS256'', ''HS384'', ''HS512''}
   \<and> isl (ValidateToken testLib sampleManager 1700000005000000000 unsignedToken)
   \<and> serialises testLib HS256 ''another-secret'' sampleClaims
   \<and> SignedString testLib HS256 sampleClaims ''another-secret'' = Inr foreignToken
   \<and> HMAC testLib HS256 ''another-secret'' (SigningString testLib HS256 sampleClaims)
        \<noteq> HMAC testLib HS256 (secretKey sampleManager) (SigningString testLib HS256 sampleClaims)
   \<and> ValidateToken testLib sampleManager 1700000005000000000 foreignToken = Inl ErrTokenSignatureInvalid"
proof -
  have g: "\<not> signatureVerifies testLib (secretKey sampleManager) ''garbage''"
    by (simp add: signatureVerifies_def ParseUnverified_def)
  have n: "''none'' \<notin> {''HS256'', ''HS384'', ''HS512''}" by simp
  note r = rejects_bad_signature_or_algorithm
  have "isl (ValidateToken testLib sampleManager 1700000005000000000 ''garbage'')"
    using r [of testLib sampleManager "''garbage''"] g by blast
  moreover have "isl (ValidateToken testLib sampleManager 1700000005000000000 unsignedToken)"
    using r [of testLib sampleManager unsignedToken 1700000005000000000 "''none''"] unsignedToken_alg n
    by blast
  moreover have "ValidateToken testLib sampleManager 1700000005000000000 foreignToken
                   = Inl ErrTokenSignatureInvalid"
    using r [of testLib sampleManager foreignToken 1700000005000000000 "''none''" "''another-secret''"
        sampleClaims] sampleClaims_serialises foreignToken_signed foreign_mac
    by blast
  ultimately show ?thesis
    using g n unsignedToken_alg sampleClaims_serialises foreignToken_signed foreign_mac by blast
qed

text \<open>
  A secret that differs from the manager's secret only by a trailing zero byte is the
  same HMAC key once both are filled with zero bytes to the block size (whatever the
  hash function): the token signed with it is accepted.
\<close>

theorem rejects_bad_signature_or_algorithm_counterexample:
  "''default-secret-key'' @ [CHR 0x00] \<noteq> secretKey sampleManager
   \<and> SignedString testLib HS256 sampleClaims (''default-secret-key'' @ [CHR 0x00]) = Inr paddedKeyToken
   \<and> ValidateToken testLib sampleManager 1700000005000000000 paddedKeyToken = Inr sampleClaims"
proof -
  have k: "''default-secret-key'' @ [CHR 0x00] \<noteq> secretKey sampleManager"
    by (simp add: sampleManager_eq)
  have m: "HMAC testLib HS256 (''default-secret-key'' @ [CHR 0x00]) (SigningString testLib HS256 sampleClaims)
             = HMAC testLib HS256 (secretKey sampleManager) (SigningString testLib HS256 sampleClaims)"
    using HMAC_zero_padded_key [of "''default-secret-key''" HS256 testLib]
    by (simp add: sampleManager_eq)
  have v: "Validate sampleClaims 1700000005000000000"
    by (simp add: Validate_withinValidity withinValidity_def sampleClaims_eq)
  have "ValidateToken testLib sampleManager 1700000005000000000 paddedKeyToken = Inr sampleClaims"
    using m v by (simp add: ValidateToken_signed [OF sampleClaims_serialises _ paddedKeyToken_signed])
  with k paddedKeyToken_signed show ?thesis by blast
qed

text \<open>
  Claim C3.  For a token that ValidateToken accepts and that carries an expiry:
  RefreshToken fails with the still-valid error when strictly more than 15 minutes
  remain before the expiry, and with 15 minutes or fewer it returns a new token, which
  is accepted by ValidateToken on its own within its fresh window (ending one token
  duration after the reissue) and carries the same user id as its subject, the same
  email and the same role.
\<close>

theorem refresh_policy:
  assumes "ValidateToken L j tValidate tok = Inr c" and "ExpiresAt c = Some e"
  shows "(e - tUntil > 15 * Minute \<longrightarrow>
            RefreshToken L j tValidate tUntil (t1, t2, t3) uuid tok = Inl ErrTokenStillValid)
       \<and> (e - tUntil \<le> 15 * Minute \<longrightarrow>
            (\<exists>tok'. RefreshToken L j tValidate tUntil (t1, t2, t3) uuid tok = Inr tok'
               \<and> (serialises L HS256 (secretKey j)
                     (newClaims j (t1, t2, t3) uuid (UserID c) (Email c) (Role c))
                    \<and> t3 \<le> now \<and> now < NewNumericDate (t1 + tokenDuration j)
                   \<longrightarrow> (\<exists>c'. ValidateToken L j now tok' = Inr c'
                          \<and> UserID c' = UserID c \<and> Subject c' = UserID c
                          \<and> Email c' = Email c \<and> Role c' = Role c
                          \<and> ID c' = uuid
                          \<and> ExpiresAt c' = Some (NewNumericDate (t1 + tokenDuration j))))))"
proof (intro conjI impI)
  assume "e - tUntil > 15 * Minute"
  with assms show "RefreshToken L j tValidate tUntil (t1, t2, t3) uuid tok = Inl ErrTokenStillValid"
    by (rule RefreshToken_still_valid)
next
  assume le: "e - tUntil \<le> 15 * Minute"
  let ?c = "newClaims j (t1, t2, t3) uuid (UserID c) (Email c) (Role c)"
  have r: "RefreshToken L j tValidate tUntil (t1, t2, t3) uuid tok
             = GenerateToken L j (t1, t2, t3) uuid (UserID c) (Email c) (Role c)"
    using assms le by (rule RefreshToken_reissue)
  obtain tok' where g: "GenerateToken L j (t1, t2, t3) uuid (UserID c) (Email c) (Role c) = Inr tok'"
    by (simp add: GenerateToken_def SignedString_def Let_def)
  have "\<exists>c'. ValidateToken L j now tok' = Inr c'
          \<and> UserID c' = UserID c \<and> Subject c' = UserID c
          \<and> Email c' = Email c \<and> Role c' = Role c \<and> ID c' = uuid
          \<and> ExpiresAt c' = Some (NewNumericDate (t1 + tokenDuration j))"
    if s: "serialises L HS256 (secretKey j) ?c"
      and w: "t3 \<le> now" "now < NewNumericDate (t1 + tokenDuration j)"
  proof -
    have "NewNumericDate t3 \<le> now"
      using NewNumericDate_le [of t3] w(1) by linarith
    from ValidateToken_generated [OF s this w(2)] g
    have "ValidateToken L j now tok' = Inr ?c" by simp
    then show ?thesis by (simp add: newClaims_def)
  qed
  with r g
  show "\<exists>tok'. RefreshToken L j tValidate tUntil (t1, t2, t3) uuid tok = Inr tok'
               \<and> (serialises L HS256 (secretKey j) ?c
                    \<and> t3 \<le> now \<and> now < NewNumericDate (t1 + tokenDuration j)
                   \<longrightarrow> (\<exists>c'. ValidateToken L j now tok' = Inr c'
                          \<and> UserID c' = UserID c \<and> Subject c' = UserID c
                          \<and> Email c' = Email c \<and> Role c' = Role c
                          \<and> ID c' = uuid
                          \<and> ExpiresAt c' = Some (NewNumericDate (t1 + tokenDuration j))))"
    by auto
qed

theorem refresh_policy_witness:
  "ValidateToken testLib sampleManager 1700000005000000000 sampleToken = Inr sampleClaims
   \<and> ExpiresAt sampleClaims = Some 1700086400000000000
   \<and> 1700086400000000000 - 1700000005000000001 > 15 * Minute
   \<and> RefreshToken testLib sampleManager 1700000005000000000 1700000005000000001
         (1700000005000000010, 1700000005000000011, 1700000005000000012)
         ''f47ac10b-58cc-4372-a567-0e02b2c3d479'' sampleToken = Inl ErrTokenStillValid
   \<and> ValidateToken testLib sampleManager 1700086000000000000 sampleToken = Inr sampleClaims
   \<and> 1700086400000000000 - 1700086000000000001 \<le> 15 * Minute
   \<and> (\<exists>tok'. RefreshToken testLib sampleManager 1700086000000000000 1700086000000000001
                 (1700086000000000010, 1700086000000000011, 1700086000000000012)
                 ''f47ac10b-58cc-4372-a567-0e02b2c3d479'' sampleToken = Inr tok'
          \<and> (\<exists>c'. ValidateToken testLib sampleManager 1700086001000000000 tok' = Inr c'
                 \<and> UserID c' = ''u-1'' \<and> Subject c' = ''u-1''
                 \<and> Email c' = ''alice@example.com'' \<and> Role c' = ''farmer''
                 \<and> ExpiresAt c' = Some 1700172400000000000))"
proof -
  have v1: "ValidateToken testLib sampleManager 1700000005000000000 sampleToken = Inr sampleClaims"
    by (rule sampleToken_valid) simp_all
  have v2: "ValidateToken testLib sampleManager 1700086000000000000 sampleToken = Inr sampleClaims"
    by (rule sampleToken_valid) simp_all
  have e: "ExpiresAt sampleClaims = Some 1700086400000000000"
    by (simp add: sampleClaims_eq)
  have far: "1700086400000000000 - 1700000005000000001 > 15 * Minute"
    by (simp add: Minute_def Second_def)
  have near: "1700086400000000000 - 1700086000000000001 \<le> 15 * Minute"
    by (simp add: Minute_def Second_def)
  have f: "UserID sampleClaims = ''u-1''" "Email sampleClaims = ''alice@example.com''"
    "Role sampleClaims = ''farmer''"
    by (simp_all add: sampleClaims_eq)
  have s: "serialises testLib HS256 (secretKey sampleManager)
             (newClaims sampleManager (1700086000000000010, 1700086000000000011, 1700086000000000012)
                ''f47ac10b-58cc-4372-a567-0e02b2c3d479'' (UserID sampleClaims) (Email sampleClaims)
                (Role sampleClaims))"
    unfolding f using renewedClaims_roundtrip by (rule serialises_testLib)
  have w: "(1700086000000000012 :: int) \<le> 1700086001000000000"
    "1700086001000000000 < NewNumericDate (1700086000000000010 + tokenDuration sampleManager)"
    by (simp_all add: sampleManager_eq NewNumericDate_def Truncate_def Second_def)
  have x: "NewNumericDate (1700086000000000010 + tokenDuration sampleManager) = 1700172400000000000"
    by (simp add: sampleManager_eq NewNumericDate_def Truncate_def Second_def)
  have a: "RefreshToken testLib sampleManager 1700000005000000000 1700000005000000001
         (1700000005000000010, 1700000005000000011, 1700000005000000012)
         ''f47ac10b-58cc-4372-a567-0e02b2c3d479'' sampleToken = Inl ErrTokenStillValid"
    using refresh_policy [OF v1 e, of 1700000005000000001] far by blast
  have b: "\<exists>tok'. RefreshToken testLib sampleManager 1700086000000000000 1700086000000000001
                 (1700086000000000010, 1700086000000000011, 1700086000000000012)
                 ''f47ac10b-58cc-4372-a567-0e02b2c3d479'' sampleToken = Inr tok'
          \<and> (\<exists>c'. ValidateToken testLib sampleManager 1700086001000000000 tok' = Inr c'
                 \<and> UserID c' = ''u-1'' \<and> Subject c' = ''u-1''
                 \<and> Email c' = ''alice@example.com'' \<and> Role c' = ''farmer''
                 \<and> ExpiresAt c' = Some 1700172400000000000)"
    using refresh_policy [OF v2 e, of 1700086000000000001 1700086000000000010 1700086000000000011
        1700086000000000012 "''f47ac10b-58cc-4372-a567-0e02b2c3d479''" 1700086001000000000]
      near s w unfolding f x by blast
  from v1 e far a v2 near b show ?thesis by blast
qed

section \<open>Claims about the authentication middleware\<close>

text \<open>
  Claim C5.  On a protected route the Auth middleware answers 401 with the code
  MISSING_TOKEN when the Authorization header is absent (or empty), 401 with
  INVALID_TOKEN_FORMAT when the header is not of the form "Bearer", one space, token,
  and 401 with INVALID_TOKEN when ValidateToken fails.  In these three cases the
  request is aborted and the result does not depend on the downstream handlers: they
  are not run.  On success the user id, email and role of the validated claims are
  stored under the keys \<open>user_id\<close>, \<open>user_email\<close> and \<open>user_role\<close> and the downstream
  handlers run on that context.
\<close>

theorem Auth_contract:
  "(GetHeader c ''Authorization'' = [] \<longrightarrow>
      (\<exists>msg. \<forall>next. Auth L getenv now next c
          = Abort (JSON c StatusUnauthorized (ErrorH ''MISSING_TOKEN'' msg))))
   \<and> (GetHeader c ''Authorization'' \<noteq> []
       \<and> (\<forall>t. Split (CHR '' '') (GetHeader c ''Authorization'') \<noteq> [''Bearer'', t]) \<longrightarrow>
      (\<exists>msg. \<forall>next. Auth L getenv now next c
          = Abort (JSON c StatusUnauthorized (ErrorH ''INVALID_TOKEN_FORMAT'' msg))))
   \<and> (Split (CHR '' '') (GetHeader c ''Authorization'') = [''Bearer'', t]
       \<and> isl (ValidateToken L (NewJWTManager L getenv) now t) \<longrightarrow>
      (\<exists>msg. \<forall>next. Auth L getenv now next c
          = Abort (JSON c StatusUnauthorized (ErrorH ''INVALID_TOKEN'' msg))))
   \<and> (Split (CHR '' '') (GetHeader c ''Authorization'') = [''Bearer'', t]
       \<and> ValidateToken L (NewJWTManager L getenv) now t = Inr claims \<longrightarrow>
      (\<forall>next. Auth L getenv now next c
          = next (c\<lparr>Keys := (Keys c)(''user_id'' \<mapsto> UserID claims,
                                      ''user_email'' \<mapsto> Email claims,
                                      ''user_role'' \<mapsto> Role claims)\<rparr>)))
   \<and> StatusUnauthorized = 401"
proof (intro conjI impI)
  assume "GetHeader c ''Authorization'' = []"
  then show "\<exists>msg. \<forall>next. Auth L getenv now next c
          = Abort (JSON c StatusUnauthorized (ErrorH ''MISSING_TOKEN'' msg))"
    using Auth_missing [of c L getenv now] by blast
next
  assume "GetHeader c ''Authorization'' \<noteq> []
       \<and> (\<forall>t. Split (CHR '' '') (GetHeader c ''Authorization'') \<noteq> [''Bearer'', t])"
  then show "\<exists>msg. \<forall>next. Auth L getenv now next c
          = Abort (JSON c StatusUnauthorized (ErrorH ''INVALID_TOKEN_FORMAT'' msg))"
    using Auth_format [of c L getenv now] by blast
next
  assume "Split (CHR '' '') (GetHeader c ''Authorization'') = [''Bearer'', t]
       \<and> isl (ValidateToken L (NewJWTManager L getenv) now t)"
  then show "\<exists>msg. \<forall>next. Auth L getenv now next c
          = Abort (JSON c StatusUnauthorized (ErrorH ''INVALID_TOKEN'' msg))"
    using Auth_invalid [of c t L getenv now] by blast
next
  assume "Split (CHR '' '') (GetHeader c ''Authorization'') = [''Bearer'', t]
       \<and> ValidateToken L (NewJWTManager L getenv) now t = Inr claims"
  then show "\<forall>next. Auth L getenv now next c
          = next (c\<lparr>Keys := (Keys c)(''user_id'' \<mapsto> UserID claims,
                                      ''user_email'' \<mapsto> Email claims,
                                      ''user_role'' \<mapsto> Role claims)\<rparr>)"
    using Auth_valid [of c t L getenv now claims] by blast
next
  show "StatusUnauthorized = 401" by (simp add: StatusUnauthorized_def)
qed

theorem Auth_contract_witness:
  "GetHeader (request Map.empty) ''Authorization'' = []
   \<and> (\<exists>msg. \<forall>next. Auth testLib noEnv 1700000005000000000 next (request Map.empty)
          = Abort (JSON (request Map.empty) 401 (ErrorH ''MISSING_TOKEN'' msg)))
   \<and> GetHeader (request [''Authorization'' \<mapsto> ''Token abc'']) ''Authorization'' \<noteq> []
   \<and> (\<forall>t. Split (CHR '' '') (GetHeader (request [''Authorization'' \<mapsto> ''Token abc'']) ''Authorization'')
          \<noteq> [''Bearer'', t])
   \<and> (\<exists>msg. \<forall>next. Auth testLib noEnv 1700000005000000000 next
                        (request [''Authorization'' \<mapsto> ''Token abc''])
          = Abort (JSON (request [''Authorization'' \<mapsto> ''Token abc'']) 401
                     (ErrorH ''INVALID_TOKEN_FORMAT'' msg)))
   \<and> Split (CHR '' '') (GetHeader (request [''Authorization'' \<mapsto> ''Bearer garbage'']) ''Authorization'')
        = [''Bearer'', ''garbage'']
   \<and> isl (ValidateToken testLib (NewJWTManager testLib noEnv) 1700000005000000000 ''garbage'')
   \<and> (\<exists>msg. \<forall>next. Auth testLib noEnv 1700000005000000000 next
                        (request [''Authorization'' \<mapsto> ''Bearer garbage''])
          = Abort (JSON (request [''Authorization'' \<mapsto> ''Bearer garbage'']) 401
                     (ErrorH ''INVALID_TOKEN'' msg)))
   \<and> Split (CHR '' '') (GetHeader (request [''Authorization'' \<mapsto> ''Bearer '' @ sampleToken]) ''Authorization'')
        = [''Bearer'', sampleToken]
   \<and> ValidateToken testLib (NewJWTManager testLib noEnv) 1700000005000000000 sampleToken
        = Inr sampleClaims
   \<and> (\<forall>next. Auth testLib noEnv 1700000005000000000 next
                 (request [''Authorization'' \<mapsto> ''Bearer '' @ sampleToken])
          = next ((request [''Authorization'' \<mapsto> ''Bearer '' @ sampleToken])
                    \<lparr>Keys := [''user_id'' \<mapsto> ''u-1'', ''user_email'' \<mapsto> ''alice@example.com'',
                              ''user_role'' \<mapsto> ''farmer'']\<rparr>))"
proof -
  let ?now = "1700000005000000000 :: int"
  let ?c1 = "request Map.empty"
  let ?c2 = "request [''Authorization'' \<mapsto> ''Token abc'']"
  let ?c3 = "request [''Authorization'' \<mapsto> ''Bearer garbage'']"
  let ?c4 = "request [''Authorization'' \<mapsto> ''Bearer '' @ sampleToken]"
  have u: "StatusUnauthorized = 401" by (simp add: StatusUnauthorized_def)
  have h1: "GetHeader ?c1 ''Authorization'' = []"
    by (simp add: GetHeader_def request_def)
  have h2: "GetHeader ?c2 ''Authorization'' \<noteq> []"
    and h2': "\<forall>t. Split (CHR '' '') (GetHeader ?c2 ''Authorization'') \<noteq> [''Bearer'', t]"
    by (simp_all add: GetHeader_def request_def)
  have h3: "Split (CHR '' '') (GetHeader ?c3 ''Authorization'') = [''Bearer'', ''garbage'']"
    by (simp add: GetHeader_def request_def)
  have h3': "isl (ValidateToken testLib (NewJWTManager testLib noEnv) ?now ''garbage'')"
    by (simp add: ValidateToken_def ParseWithClaims_def ParseUnverified_def)
  have h4: "Split (CHR '' '') (GetHeader ?c4 ''Authorization'') = [''Bearer'', sampleToken]"
    using Split_Bearer [OF sampleToken_no_space] by (simp add: GetHeader_def request_def)
  have h4': "ValidateToken testLib (NewJWTManager testLib noEnv) ?now sampleToken = Inr sampleClaims"
    using sampleToken_valid [of ?now] by (simp add: sampleManager_def)
  have k: "Keys ?c4 = Map.empty" by (simp add: request_def)
  have f: "UserID sampleClaims = ''u-1''" "Email sampleClaims = ''alice@example.com''"
    "Role sampleClaims = ''farmer''"
    by (simp_all add: sampleClaims_eq)
  have r1: "\<exists>msg. \<forall>next. Auth testLib noEnv ?now next ?c1
              = Abort (JSON ?c1 401 (ErrorH ''MISSING_TOKEN'' msg))"
    using Auth_contract [of ?c1 testLib noEnv ?now] h1 unfolding u by blast
  have r2: "\<exists>msg. \<forall>next. Auth testLib noEnv ?now next ?c2
              = Abort (JSON ?c2 401 (ErrorH ''INVALID_TOKEN_FORMAT'' msg))"
    using Auth_contract [of ?c2 testLib noEnv ?now] h2 h2' unfolding u by blast
  have r3: "\<exists>msg. \<forall>next. Auth testLib noEnv ?now next ?c3
              = Abort (JSON ?c3 401 (ErrorH ''INVALID_TOKEN'' msg))"
    using Auth_contract [of ?c3 testLib noEnv ?now "''garbage''"] h3 h3' unfolding u by blast
  have r4: "\<forall>next. Auth testLib noEnv ?now next ?c4
              = next (?c4\<lparr>Keys := [''user_id'' \<mapsto> ''u-1'', ''user_email'' \<mapsto> ''alice@example.com'',
                                   ''user_role'' \<mapsto> ''farmer'']\<rparr>)"
    using Auth_contract [of ?c4 testLib noEnv ?now sampleToken sampleClaims] h4 h4'
    unfolding k f by blast
  from h1 r1 h2 h2' r2 h3 h3' r3 h4 h4' r4 show ?thesis by blast
qed

section \<open>Claims about the transaction handlers\<close>

text \<open>
  Claim C9.  GetTransaction, UpdateTransaction and DeleteTransaction select by the
  transaction id together with the id of the authenticated user.  For a request of user
  \<open>u\<close>, whatever transaction id it names: the response, and what the operation does to
  the rows of \<open>u\<close>, are the same as on the database from which the rows of all other
  users have been removed (so another user's transaction behaves as if it did not
  exist); the rows of the other users are left exactly as they were; and every
  transaction that the response returns belongs to \<open>u\<close>.
\<close>

theorem user_isolation:
  assumes "GetUserID c = Some u"
  shows "GetTransaction (ownRows u db) now c = GetTransaction db now c
       \<and> UpdateTransaction (ownRows u db) bound dbNow now c
           = (ownRows u (fst (UpdateTransaction db bound dbNow now c)),
              snd (UpdateTransaction db bound dbNow now c))
       \<and> DeleteTransaction (ownRows u db) now c
           = (ownRows u (fst (DeleteTransaction db now c)), snd (DeleteTransaction db now c))
       \<and> foreignRows u (fst (UpdateTransaction db bound dbNow now c)) = foreignRows u db
       \<and> foreignRows u (fst (DeleteTransaction db now c)) = foreignRows u db
       \<and> (\<forall>t \<in> set (returned (Written (GetTransaction db now c))).
            t \<in> set (returned (Written c)) \<or> tUserID t = u)
       \<and> (\<forall>t \<in> set (returned (Written (snd (UpdateTransaction db bound dbNow now c)))).
            t \<in> set (returned (Written c)) \<or> tUserID t = u)
       \<and> returned (Written (snd (DeleteTransaction db now c))) = returned (Written c)"
proof (intro conjI ballI)
  show "GetTransaction (ownRows u db) now c = GetTransaction db now c"
    by (rule GetTransaction_ownRows [OF assms])
  show "UpdateTransaction (ownRows u db) bound dbNow now c
           = (ownRows u (fst (UpdateTransaction db bound dbNow now c)),
              snd (UpdateTransaction db bound dbNow now c))"
    by (rule UpdateTransaction_ownRows [OF assms])
  show "DeleteTransaction (ownRows u db) now c
           = (ownRows u (fst (DeleteTransaction db now c)), snd (DeleteTransaction db now c))"
    by (rule DeleteTransaction_ownRows [OF assms])
  show "foreignRows u (fst (UpdateTransaction db bound dbNow now c)) = foreignRows u db"
    using UpdateTransaction_foreign [OF assms] by blast
  show "foreignRows u (fst (DeleteTransaction db now c)) = foreignRows u db"
    using DeleteTransaction_foreign [OF assms] by blast
  show "t \<in> set (returned (Written c)) \<or> tUserID t = u"
    if "t \<in> set (returned (Written (GetTransaction db now c)))" for t
    using that by (rule GetTransaction_returned [OF assms])
  show "t \<in> set (returned (Written c)) \<or> tUserID t = u"
    if "t \<in> set (returned (Written (snd (UpdateTransaction db bound dbNow now c))))" for t
    using that by (rule UpdateTransaction_returned [OF assms])
  show "returned (Written (snd (DeleteTransaction db now c))) = returned (Written c)"
    by (rule DeleteTransaction_returned [OF assms])
qed

theorem user_isolation_witness:
  "GetUserID foreignRequest = Some ''u-1''
   \<and> GetTransaction (ownRows ''u-1'' sampleDB) 1700000005000000000 foreignRequest
        = GetTransaction sampleDB 1700000005000000000 foreignRequest
   \<and> foreignRows ''u-1'' (fst (UpdateTransaction sampleDB (Inr sampleUpdate) 1700000004000000000
                                 1700000005000000000 foreignRequest))
        = [sampleRow ''t-2'' ''u-2'']
   \<and> foreignRows ''u-1'' (fst (DeleteTransaction sampleDB 1700000005000000000 foreignRequest))
        = [sampleRow ''t-2'' ''u-2'']
   \<and> returned (Written (snd (DeleteTransaction sampleDB 1700000005000000000 foreignRequest))) = []
   \<and> map fst (Written (GetTransaction sampleDB 1700000005000000000 foreignRequest)) = [404]
   \<and> map fst (Written (snd (UpdateTransaction sampleDB (Inr sampleUpdate) 1700000004000000000
                                 1700000005000000000 foreignRequest))) = [404]
   \<and> map fst (Written (snd (DeleteTransaction sampleDB 1700000005000000000 foreignRequest))) = [404]
   \<and> fst (DeleteTransaction sampleDB 1700000005000000000 foreignRequest) = sampleDB
   \<and> fst (UpdateTransaction sampleDB (Inr sampleUpdate) 1700000004000000000
             1700000005000000000 foreignRequest) = sampleDB"
proof -
  have h: "GetUserID foreignRequest = Some ''u-1''"
    by (simp add: GetUserID_def foreignRequest_def request_def)
  have f: "foreignRows ''u-1'' sampleDB = [sampleRow ''t-2'' ''u-2'']"
    by (simp add: foreignRows_def sampleDB_def sampleRow_def)
  have w: "returned (Written foreignRequest) = []"
    by (simp add: foreignRequest_def request_def)
  note i = user_isolation [OF h, where db = sampleDB and now = 1700000005000000000
      and bound = "Inr sampleUpdate" and dbNow = 1700000004000000000]
  have p: "Param foreignRequest ''id'' = ''t-2''" "Keys foreignRequest ''request_id'' = Some ''req-1''"
    "Written foreignRequest = []"
    by (simp_all add: Param_def foreignRequest_def request_def)
  have e: "\<not> IsEmptyString ''t-2''"
    by code_simp
  have s: "selectTransaction sampleDB ''t-2'' ''u-1'' = Inl ErrNoRows"
    by (simp add: selectTransaction_def sampleDB_def sampleRow_def)
  have g: "map fst (Written (GetTransaction sampleDB 1700000005000000000 foreignRequest)) = [404]"
    by (simp add: GetTransaction_def Let_def h p e s ErrorResponse_def JSON_def StatusNotFound_def)
  have d: "deleteTransaction sampleDB ''t-2'' ''u-1'' = Inr (sampleDB, 0)"
    by (simp add: deleteTransaction_def sampleDB_def sampleRow_def)
  have dd: "DeleteTransaction sampleDB 1700000005000000000 foreignRequest
              = (sampleDB, ErrorResponse foreignRequest 1700000005000000000 StatusNotFound
                   ''TRANSACTION_NOT_FOUND'' msgTransactionNotFound None)"
    by (simp add: DeleteTransaction_def Let_def h p e d)
  have up: "updateTransaction sampleDB 1700000004000000000 sampleUpdate ''t-2'' ''u-1'' = Inr sampleDB"
    by (simp add: updateTransaction_def sampleDB_def sampleRow_def)
  have uu: "UpdateTransaction sampleDB (Inr sampleUpdate) 1700000004000000000 1700000005000000000
              foreignRequest = (sampleDB, GetTransaction sampleDB 1700000005000000000 foreignRequest)"
    by (simp add: UpdateTransaction_def Let_def h p e up)
  have d404: "map fst (Written (snd (DeleteTransaction sampleDB 1700000005000000000 foreignRequest))) = [404]"
    by (simp add: dd p ErrorResponse_def JSON_def StatusNotFound_def)
  from h i f w g d404 show ?thesis
    by (simp add: dd uu)
qed

section \<open>Claims about the registration scenario\<close>

text \<open>
  Claim C7, evaluated on the scenario.  The successful registration of
  \<open>alice@example.com\<close> is answered with status 200, not 201, and carries a token; the
  protected route called with that token answers 200 and resolves the identity to the
  registered user id; called without an Authorization header it answers 401 with
  MISSING_TOKEN, and with "Bearer garbage" it answers 401 with INVALID_TOKEN.
\<close>

theorem register_scenario:
  "codes (Written registerCall) = [(200, [])]
   \<and> StatusCreated = 201
   \<and> tokens (Written registerCall) = [sampleToken]
   \<and> codes (Written (protectedCall [''Authorization'' \<mapsto> ''Bearer '' @ sampleToken])) = [(200, [])]
   \<and> GetUserID (protectedCall [''Authorization'' \<mapsto> ''Bearer '' @ sampleToken])
        = Some (userUUID sampleEntropy)
   \<and> codes (Written (protectedCall Map.empty)) = [(401, ''MISSING_TOKEN'')]
   \<and> codes (Written (protectedCall [''Authorization'' \<mapsto> ''Bearer garbage'']))
        = [(401, ''INVALID_TOKEN'')]"
proof -
  from registerCall_written obtain r a where
    "Written registerCall = [(StatusOK, Envelope r)]" "Error r = None"
    "Data r = Some (AuthData a)" "respToken a = sampleToken"
    by blast
  then have "codes (Written registerCall) = [(200, [])]" "tokens (Written registerCall) = [sampleToken]"
    by (simp_all add: StatusOK_def)
  moreover have "StatusCreated = 201" by (simp add: StatusCreated_def)
  moreover have "userUUID sampleEntropy = ''u-1''" by (simp add: sampleEntropy_def)
  ultimately show ?thesis
    using protectedCall_valid protectedCall_missing protectedCall_garbage by simp
qed

section \<open>Claims about the password helpers\<close>

text \<open>
  Claim C6 (as amended).  With a working random source, for every plaintext of at most
  72 bytes HashPassword succeeds and CheckPassword accepts the plaintext against its
  own hash; CheckPassword of another plaintext against that hash is true exactly when
  the two bcrypt digests under the salt of the hash agree, so it is false whenever
  they differ; and CheckPassword is false for a stored hash that does not parse and
  whenever the comparison of the library reports any error.  (The salt is the base64
  text, 22 characters long, of the random bytes.)
\<close>

theorem password_check:
  assumes "Base64Decode L (Base64Encode L r) = Some r" and "length (Base64Encode L r) = 22"
    and "length p \<le> 72"
  shows "snd (HashPassword L (Some r) p) = None
       \<and> CheckPassword L p (fst (HashPassword L (Some r) p))
       \<and> CheckPassword L q (fst (HashPassword L (Some r) p))
           = (fit 31 (digest L r q) = fit 31 (digest L r p))
       \<and> (isl (newFromHash h) \<longrightarrow> \<not> CheckPassword L q h)
       \<and> (CompareHashAndPassword L h q \<noteq> None \<longrightarrow> \<not> CheckPassword L q h)"
proof (intro conjI impI)
  show "snd (HashPassword L (Some r) p) = None"
    by (simp add: HashPassword_eq [OF assms(3) assms(1)])
  show "CheckPassword L p (fst (HashPassword L (Some r) p))"
    by (simp add: CheckPassword_hashed [OF assms])
  show "CheckPassword L q (fst (HashPassword L (Some r) p))
           = (fit 31 (digest L r q) = fit 31 (digest L r p))"
    by (rule CheckPassword_hashed [OF assms])
  show "\<not> CheckPassword L q h" if "isl (newFromHash h)"
    using that by (rule CheckPassword_malformed)
  show "\<not> CheckPassword L q h" if "CompareHashAndPassword L h q \<noteq> None"
    using that by (simp add: CheckPassword_def)
qed

theorem password_check_witness:
  "Base64Decode testLib (Base64Encode testLib ''0123456789abcdef'') = Some ''0123456789abcdef''
   \<and> length (Base64Encode testLib ''0123456789abcdef'') = 22
   \<and> length ''secret123'' \<le> 72
   \<and> isl (newFromHash ''not-a-hash'')
   \<and> snd (HashPassword testLib (Some ''0123456789abcdef'') ''secret123'') = None
   \<and> CheckPassword testLib ''secret123''
        (fst (HashPassword testLib (Some ''0123456789abcdef'') ''secret123''))
   \<and> \<not> CheckPassword testLib ''secret124''
          (fst (HashPassword testLib (Some ''0123456789abcdef'') ''secret123''))
   \<and> \<not> CheckPassword testLib ''secret124'' ''not-a-hash''"
proof -
  have a: "Base64Decode testLib (Base64Encode testLib ''0123456789abcdef'') = Some ''0123456789abcdef''"
    by (rule testLib_salt)
  have b: "length (Base64Encode testLib ''0123456789abcdef'') = 22"
    by (rule testLib_salt) simp
  have p: "length ''secret123'' \<le> 72" by simp
  have m: "isl (newFromHash ''not-a-hash'')"
    by (simp add: newFromHash_def)
  from password_check [OF a b p, of "''secret124''" "''not-a-hash''"] m digest_secret a b p
  show ?thesis by blast
qed

text \<open>
  The two distinct plaintexts \<open>ab\<close> and \<open>ab\<close>, zero byte, \<open>ab\<close>: bcrypt appends a zero
  byte to the password and the key schedule reads the result cyclically, so both give
  the same 72 bytes of key and the same digest (whatever the cipher computes from
  them), and each is accepted against the hash of the other.
\<close>

theorem password_check_counterexample:
  "''ab'' @ [CHR 0x00] @ ''ab'' \<noteq> ''ab''
   \<and> snd (HashPassword testLib (Some ''0123456789abcdef'') ''ab'') = None
   \<and> CheckPassword testLib (''ab'' @ [CHR 0x00] @ ''ab'')
        (fst (HashPassword testLib (Some ''0123456789abcdef'') ''ab''))"
proof -
  have a: "Base64Decode testLib (Base64Encode testLib ''0123456789abcdef'') = Some ''0123456789abcdef''"
    by (rule testLib_salt)
  have b: "length (Base64Encode testLib ''0123456789abcdef'') = 22"
    by (rule testLib_salt) simp
  have p: "length ''ab'' \<le> 72" by simp
  have "CheckPassword testLib (''ab'' @ [CHR 0x00] @ ''ab'')
          (fst (HashPassword testLib (Some ''0123456789abcdef'') ''ab''))"
    by (simp only: CheckPassword_hashed [OF a b p] digest_ab)
  moreover have "snd (HashPassword testLib (Some ''0123456789abcdef'') ''ab'') = None"
    by (simp add: HashPassword_eq [OF p a])
  ultimately show ?thesis by simp
qed

end
